theory Spec2Isabelle
  imports Main
begin

section \<open>The multiline stage of the promtail sample plugin\<close>

text \<open>
  A shallow embedding of \<^verbatim>\<open>src/multiline/multiline.go\<close>. Mutation of the parser and of
  its entries is explicit state passing; \<^verbatim>\<open>time.Now()\<close> is a parameter \<open>now\<close> of every
  operation that reads the clock; the mutex makes every operation atomic, so an execution is
  a sequence of operations. Of logging only what can fail is modelled: a call of \<^verbatim>\<open>Log\<close> on
  a \<^verbatim>\<open>nil\<close> logger.

  The line counter, a Go \<^verbatim>\<open>int\<close>, is an unbounded integer: it only moves by
  \<^verbatim>\<open>lines++\<close>, so a wrap-around needs \<open>2^63\<close> appends to one entry.
\<close>

subsection \<open>Instants and durations (package time)\<close>

text \<open>
  A \<^verbatim>\<open>time.Time\<close> is an instant, counted in nanoseconds from the zero \<^verbatim>\<open>Time\<close>, which is
  the instant \<open>0\<close>. A \<^verbatim>\<open>time.Duration\<close> is an \<^verbatim>\<open>int64\<close> number of nanoseconds, and
  \<^verbatim>\<open>t.Sub(u)\<close> is the duration \<open>t - u\<close> when it fits and the maximum or the minimum
  duration when it does not.
\<close>

definition maxDuration :: int where
  "maxDuration = 2 ^ 63 - 1"

definition minDuration :: int where
  "minDuration = - (2 ^ 63)"

definition Sub :: "int \<Rightarrow> int \<Rightarrow> int" where
  "Sub t u =
     (if t - u > maxDuration then maxDuration
      else if t - u < minDuration then minDuration
      else t - u)"

subsection \<open>Labels (library type)\<close>

text \<open>
  \<^verbatim>\<open>model.LabelSet\<close> is a Go map from label names to label values. \<^verbatim>\<open>l.Clone()\<close> copies
  the map, \<^verbatim>\<open>l.Merge(other)\<close> returns a new map holding the pairs of \<open>l\<close> overwritten by
  the pairs of \<open>other\<close>.
\<close>

type_synonym LabelSet = "string \<rightharpoonup> string"

definition Clone :: "LabelSet \<Rightarrow> LabelSet" where
  "Clone l = l"

definition Merge :: "LabelSet \<Rightarrow> LabelSet \<Rightarrow> LabelSet" where
  "Merge l other = l ++ other"

subsection \<open>multilineEntry\<close>

record multilineEntry =
  enrollTime :: int
  labels :: LabelSet
  timestamp :: int
  key :: string
  entry :: string
  lines :: int

definition reset :: "multilineEntry \<Rightarrow> multilineEntry" where
  "reset d = d\<lparr>labels := Map.empty, entry := [], lines := 0\<rparr>"

text \<open>\<^verbatim>\<open>init\<close> reads the clock for \<open>enrollTime\<close>: the instant is the last argument.\<close>

definition init :: "multilineEntry \<Rightarrow> LabelSet \<Rightarrow> int \<Rightarrow> string \<Rightarrow> int \<Rightarrow> multilineEntry" where
  "init d lbls t e now =
     d\<lparr>labels := Clone lbls, timestamp := t, entry := e, lines := 1, enrollTime := now\<rparr>"

definition join :: "string \<Rightarrow> string \<Rightarrow> string \<Rightarrow> string" where
  "join a sep b = (if length a > 0 then a @ sep @ b else a @ b)"

text \<open>
  \<^verbatim>\<open>append\<close> (here \<open>append_entry\<close>: \<open>append\<close> is the list operation). Its source is
  \<^verbatim>\<open>d.labels = labels.Merge(labels)\<close>: receiver and argument of \<open>Merge\<close> are both the
  incoming label set.
\<close>

definition append_entry :: "multilineEntry \<Rightarrow> LabelSet \<Rightarrow> string \<Rightarrow> string \<Rightarrow> multilineEntry" where
  "append_entry d lbls e delimiter =
     d\<lparr>labels := Merge lbls lbls, entry := join (entry d) delimiter e, lines := lines d + 1\<rparr>"

text \<open>The zero value of the struct with \<open>labels\<close> and \<open>key\<close> set; the zero instant is \<open>0\<close>.\<close>

definition newMultiLineEntry :: "string \<Rightarrow> multilineEntry" where
  "newMultiLineEntry k =
     \<lparr>enrollTime = 0, labels = Map.empty, timestamp = 0, key = k, entry = [], lines = 0\<rparr>"

subsection \<open>Pattern extractor\<close>

text \<open>
  A compiled \<^verbatim>\<open>*regexp.Regexp\<close> is given by the two methods the stage calls on it:
  \<^verbatim>\<open>Match\<close> and \<^verbatim>\<open>FindAllSubmatchIndex(s, -1)\<close>. The latter returns, for every match,
  the list \<open>[b0, e0, b1, e1, ...]\<close> of the byte offsets of the match and of its capturing
  groups, \<open>-1\<close> for a group that did not take part.

  \<^verbatim>\<open>s[a:b]\<close> is \<open>slice s a b\<close>; the two agree whenever \<open>0 \<le> a \<le> b \<le> len(s)\<close>, which the
  guards of \<^verbatim>\<open>disjoint\<close> and the offsets of the regexp package ensure (every offset pair
  is \<open>(-1, -1)\<close> or lies within the line, and a match list has even length; lemma
  \<open>disjoint_in_range\<close>).
\<close>

record Regexp =
  Match :: "string \<Rightarrow> bool"
  FindAllSubmatchIndex :: "string \<Rightarrow> int list list"

definition slice :: "string \<Rightarrow> int \<Rightarrow> int \<Rightarrow> string" where
  "slice s a b = take (nat (b - a)) (drop (nat a) s)"

text \<open>
  The inner loop over the groups of one match, from index 2. The loop state is
  \<open>(sel, inv, last)\<close>, written \<open>(sel, inv', last')\<close>.
\<close>

fun groups_loop :: "string \<Rightarrow> int list \<Rightarrow> string list \<times> string list \<times> int
    \<Rightarrow> string list \<times> string list \<times> int" where
  "groups_loop s (beg # end # rest) (sel, inv', last') =
     (if beg < 0 then groups_loop s rest (sel, inv', last')
      else if end > beg \<and> beg \<ge> last'
        then groups_loop s rest (sel @ [slice s beg end], inv' @ [slice s last' beg], end)
        else groups_loop s rest (sel, inv', last'))"
| "groups_loop s _ st = st"

fun matches_loop :: "string \<Rightarrow> int list list \<Rightarrow> string list \<times> string list \<times> int
    \<Rightarrow> string list \<times> string list \<times> int" where
  "matches_loop s [] st = st"
| "matches_loop s (m # ms) st = matches_loop s ms (groups_loop s (drop 2 m) st)"

definition disjoint :: "Regexp \<Rightarrow> string \<Rightarrow> string \<times> string" where
  "disjoint expression s =
     (case matches_loop s (FindAllSubmatchIndex expression s) ([], [], 0) of
        (sel, inv', last') \<Rightarrow>
          (concat sel,
           concat (if last' < int (length s) then inv' @ [drop (nat last') s] else inv')))"

text \<open>
  Where the Go code would panic. \<^verbatim>\<open>s[a:b]\<close> needs \<open>in_range s a b\<close>; \<open>groups_in_range\<close> and
  \<open>matches_in_range\<close> follow the two loops from a cursor \<open>last\<close> and say that every slice
  they take is in range and that no offset is read beyond the end of a match list
  (\<open>cursor\<close> is the cursor after the groups of one match). \<open>pairs_ok\<close> is what the regexp
  package promises of a match list.
\<close>

definition in_range :: "string \<Rightarrow> int \<Rightarrow> int \<Rightarrow> bool" where
  "in_range s a b = (0 \<le> a \<and> a \<le> b \<and> b \<le> int (length s))"

fun cursor :: "int list \<Rightarrow> int \<Rightarrow> int" where
  "cursor (beg # end # rest) last' =
     (if beg < 0 then cursor rest last'
      else if end > beg \<and> beg \<ge> last' then cursor rest end
      else cursor rest last')"
| "cursor _ last' = last'"

fun groups_in_range :: "string \<Rightarrow> int list \<Rightarrow> int \<Rightarrow> bool" where
  "groups_in_range s (beg # end # rest) last' =
     (if beg < 0 then groups_in_range s rest last'
      else if end > beg \<and> beg \<ge> last'
        then in_range s last' beg \<and> in_range s beg end \<and> groups_in_range s rest end
        else groups_in_range s rest last')"
| "groups_in_range s [x] last' = False"
| "groups_in_range s [] last' = True"

fun matches_in_range :: "string \<Rightarrow> int list list \<Rightarrow> int \<Rightarrow> bool" where
  "matches_in_range s [] last' = in_range s last' (int (length s))"
| "matches_in_range s (m # ms) last' =
     (groups_in_range s (drop 2 m) last' \<and> matches_in_range s ms (cursor (drop 2 m) last'))"

fun pairs_ok :: "string \<Rightarrow> int list \<Rightarrow> bool" where
  "pairs_ok s (b # e # rest) =
     (((b = -1 \<and> e = -1) \<or> (0 \<le> b \<and> b \<le> e \<and> e \<le> int (length s))) \<and> pairs_ok s rest)"
| "pairs_ok s [x] = False"
| "pairs_ok s [] = True"

definition selection :: "Regexp option \<Rightarrow> string \<Rightarrow> string" where
  "selection expression s =
     (case expression of None \<Rightarrow> s | Some re \<Rightarrow> fst (disjoint re s))"

subsection \<open>Errors and the downstream handler\<close>

text \<open>
  Go errors: a plain error with its message, \<^verbatim>\<open>errors.Wrap(err, msg)\<close>, and the
  \<^verbatim>\<open>util.MultiError\<close> slice. \<^verbatim>\<open>es.Add(err)\<close> ignores \<^verbatim>\<open>nil\<close>, splices in the elements of
  a \<open>MultiError\<close> and appends any other error; \<^verbatim>\<open>es.Err()\<close> is \<^verbatim>\<open>nil\<close> for the empty
  slice. A Go \<^verbatim>\<open>error\<close> result is an \<open>error option\<close>, \<open>None\<close> for \<^verbatim>\<open>nil\<close>.
\<close>

datatype error = Error string | Wrap error string | MultiError "error list"

definition Add :: "error list \<Rightarrow> error option \<Rightarrow> error list" where
  "Add es err =
     (case err of
        None \<Rightarrow> es
      | Some (MultiError merr) \<Rightarrow> es @ merr
      | Some e \<Rightarrow> es @ [e])"

definition Err :: "error list \<Rightarrow> error option" where
  "Err es = (if length es = 0 then None else Some (MultiError es))"

text \<open>
  The next handler is an \<^verbatim>\<open>api.EntryHandler\<close>: an object with a state of its own (\<open>'d\<close>)
  whose \<^verbatim>\<open>Handle\<close> answers \<^verbatim>\<open>nil\<close> or an error. What is outside the parser is the
  handler's state and the list of the calls it has received, in order.
\<close>

type_synonym 'd EntryHandler = "'d \<Rightarrow> LabelSet \<Rightarrow> int \<Rightarrow> string \<Rightarrow> error option \<times> 'd"

record 'd downstream =
  dstate :: 'd
  received :: "(LabelSet \<times> int \<times> string) list"

subsection \<open>Loggers (package log)\<close>

text \<open>
  A \<^verbatim>\<open>log.Logger\<close> is an interface value, \<^verbatim>\<open>nil\<close> (\<open>None\<close>) or a logger with its
  key-value context, which \<^verbatim>\<open>log.With\<close> extends. \<^verbatim>\<open>level.Warn(l).Log(...)\<close> and
  \<^verbatim>\<open>level.Debug(l).Log(...)\<close> wrap \<open>l\<close> and call its \<^verbatim>\<open>Log\<close> method: on a \<^verbatim>\<open>nil\<close> \<open>l\<close>
  this is a call on a \<^verbatim>\<open>nil\<close> interface, a panic (the result \<open>None\<close>). What a logger writes
  is not modelled.
\<close>

datatype Logger = Logger "string list"

definition With :: "Logger \<Rightarrow> string list \<Rightarrow> Logger" where
  "With l keyvals = (case l of Logger kvs \<Rightarrow> Logger (kvs @ keyvals))"

definition Log :: "Logger option \<Rightarrow> unit option" where
  "Log l = (case l of None \<Rightarrow> None | Some lg \<Rightarrow> Some ())"

subsection \<open>multiLineParser\<close>

text \<open>
  \<open>modeHandler\<close> is a function pointer to one of the four mode handlers: a tag.
  \<open>multiline\<close> is a pointer, \<^verbatim>\<open>nil\<close> (\<open>None\<close>) in a multitrack parser; an operation
  that dereferences it there panics, which is the result \<open>None\<close> of the operation.
  \<open>multilines\<close> is a slice of pointers to entries no two of which are the same object:
  a list of entries, updated in place by index. A \<^verbatim>\<open>*time.Ticker\<close> is its interval and
  whether it has been stopped.
\<close>

datatype ModeHandler = NewLine | Group | UnorderedGroup | Continue

record Ticker =
  interval :: int
  stopped :: bool

record 'd multiLineParser =
  modeHandler :: ModeHandler
  expressionRegex :: Regexp
  firstLineRegex :: "Regexp option"
  nextLineRegex :: "Regexp option"
  maxWait :: int
  separator :: string
  logger :: "Logger option"
  multitrack :: bool
  multilines :: "multilineEntry list"
  multiline :: "multilineEntry option"
  flusher :: "Ticker option"
  nextHandler :: "'d EntryHandler"

text \<open>\<^verbatim>\<open>c.next.Handle(labels, t, entry)\<close>: the call is recorded and the handler's state moves.\<close>

definition next_Handle :: "'d multiLineParser \<Rightarrow> LabelSet \<Rightarrow> int \<Rightarrow> string \<Rightarrow> 'd downstream
    \<Rightarrow> error option \<times> 'd downstream" where
  "next_Handle c lbls t e ds =
     (case nextHandler c (dstate ds) lbls t e of
        (err, d') \<Rightarrow> (err, \<lparr>dstate = d', received = received ds @ [(lbls, t, e)]\<rparr>))"

subsection \<open>flush, Flush, Stop and the ticker's sweep\<close>

text \<open>
  The loop of \<^verbatim>\<open>flush\<close> over \<open>c.multilines\<close>; its state is the error list, the next
  generation and the downstream.
\<close>

fun flush_loop :: "'d multiLineParser \<Rightarrow> bool \<Rightarrow> int \<Rightarrow> multilineEntry list
    \<Rightarrow> error list \<times> multilineEntry list \<times> 'd downstream
    \<Rightarrow> error list \<times> multilineEntry list \<times> 'd downstream" where
  "flush_loop c force now [] st = st"
| "flush_loop c force now (t # ts) (err, nextGen, ds) =
     (if lines t = 0 then flush_loop c force now ts (err, nextGen, ds)
      else if force \<or> Sub now (enrollTime t) > maxWait c
        then (case next_Handle c (labels t) (timestamp t) (entry t) ds of
                (r, ds') \<Rightarrow> flush_loop c force now ts (Add err r, nextGen, ds'))
        else flush_loop c force now ts (err, nextGen @ [t], ds))"

definition flush :: "'d multiLineParser \<Rightarrow> bool \<Rightarrow> int \<Rightarrow> 'd downstream
    \<Rightarrow> (error option \<times> 'd multiLineParser \<times> 'd downstream) option" where
  "flush c force now ds =
     (if multitrack c
      then (case flush_loop c force now (multilines c) ([], [], ds) of
              (err, nextGen, ds') \<Rightarrow> Some (Err err, c\<lparr>multilines := nextGen\<rparr>, ds'))
      else (case multiline c of
              None \<Rightarrow> None
            | Some t \<Rightarrow>
                if lines t > 0 \<and> (force \<or> Sub now (enrollTime t) > maxWait c)
                then (case next_Handle c (labels t) (timestamp t) (entry t) ds of
                        (r, ds') \<Rightarrow> Some (Err (Add [] r), c\<lparr>multiline := Some (reset t)\<rparr>, ds'))
                else Some (Err [], c, ds)))"

definition Flush :: "'d multiLineParser \<Rightarrow> int \<Rightarrow> 'd downstream
    \<Rightarrow> (error option \<times> 'd multiLineParser \<times> 'd downstream) option" where
  "Flush c now ds = flush c True now ds"

definition Stop :: "'d multiLineParser \<Rightarrow> int \<Rightarrow> 'd downstream
    \<Rightarrow> (error option \<times> 'd multiLineParser \<times> 'd downstream) option" where
  "Stop c now ds =
     (let c1 = (case flusher c of
                  None \<Rightarrow> c
                | Some f \<Rightarrow> c\<lparr>flusher := Some (f\<lparr>stopped := True\<rparr>)\<rparr>)
      in case flush c1 True now ds of
           None \<Rightarrow> None
         | Some (err, c2, ds') \<Rightarrow> Some (None, c2, ds'))"

text \<open>
  One iteration of the goroutine of \<^verbatim>\<open>startFlusher\<close>, run when the ticker fires at the
  instant \<open>now\<close>: an error of \<^verbatim>\<open>flush(false)\<close> is logged with
  \<^verbatim>\<open>level.Debug(c.logger).Log\<close> and dropped.
\<close>

definition sweep :: "'d multiLineParser \<Rightarrow> int \<Rightarrow> 'd downstream
    \<Rightarrow> ('d multiLineParser \<times> 'd downstream) option" where
  "sweep c now ds =
     (case flush c False now ds of
        None \<Rightarrow> None
      | Some (err, c', ds') \<Rightarrow>
          if err \<noteq> None
          then (case Log (logger c) of None \<Rightarrow> None | Some u \<Rightarrow> Some (c', ds'))
          else Some (c', ds'))"

subsection \<open>Mode handlers and Handle\<close>

text \<open>
  Every handler returns the error, the parser and the downstream after the call, or \<open>None\<close>
  when it dereferences a \<^verbatim>\<open>nil\<close> \<open>c.multiline\<close>. The clock is read by \<open>init\<close> only.
\<close>

definition handleNewLineMode :: "'d multiLineParser \<Rightarrow> LabelSet \<Rightarrow> int \<Rightarrow> string \<Rightarrow> int
    \<Rightarrow> 'd downstream \<Rightarrow> (error option \<times> 'd multiLineParser \<times> 'd downstream) option" where
  "handleNewLineMode c lbls t e now ds =
     (case multiline c of
        None \<Rightarrow> None
      | Some ml \<Rightarrow>
          if \<not> Match (expressionRegex c) e
          then Some (None,
                 c\<lparr>multiline := Some (append_entry ml lbls (selection (nextLineRegex c) e) (separator c))\<rparr>,
                 ds)
          else (case (if lines ml > 0
                      then next_Handle c (labels ml) (timestamp ml) (entry ml) ds
                      else (None, ds)) of
                  (err, ds') \<Rightarrow>
                    Some (err,
                      c\<lparr>multiline := Some (init ml lbls t (selection (firstLineRegex c) e) now)\<rparr>,
                      ds')))"

definition handleGroupMode :: "'d multiLineParser \<Rightarrow> LabelSet \<Rightarrow> int \<Rightarrow> string \<Rightarrow> int
    \<Rightarrow> 'd downstream \<Rightarrow> (error option \<times> 'd multiLineParser \<times> 'd downstream) option" where
  "handleGroupMode c lbls t e now ds =
     (case multiline c of
        None \<Rightarrow> None
      | Some ml \<Rightarrow>
          (case disjoint (expressionRegex c) e of
             (k, inv') \<Rightarrow>
               if key ml = k
               then (let line = (if nextLineRegex c \<noteq> None
                                 then selection (nextLineRegex c) e else inv')
                     in Some (None,
                          c\<lparr>multiline := Some (append_entry ml lbls line (separator c))\<rparr>, ds))
               else (case (if lines ml > 0
                           then next_Handle c (labels ml) (timestamp ml) (entry ml) ds
                           else (None, ds)) of
                       (err, ds') \<Rightarrow>
                         Some (err,
                           c\<lparr>multiline :=
                               Some ((init ml lbls t (selection (firstLineRegex c) e) now)
                                       \<lparr>key := k\<rparr>)\<rparr>,
                           ds'))))"

text \<open>
  \<^verbatim>\<open>fetchLine\<close> returns a pointer into \<open>c.multilines\<close>: here the parser (with the new
  entry appended when the key was not found) and the index of the entry.
\<close>

fun find_key :: "string \<Rightarrow> multilineEntry list \<Rightarrow> nat option" where
  "find_key k [] = None"
| "find_key k (t # ts) =
     (if key t = k then Some 0 else map_option Suc (find_key k ts))"

definition fetchLine :: "'d multiLineParser \<Rightarrow> string \<Rightarrow> 'd multiLineParser \<times> nat" where
  "fetchLine c k =
     (case find_key k (multilines c) of
        Some i \<Rightarrow> (c, i)
      | None \<Rightarrow> (c\<lparr>multilines := multilines c @ [newMultiLineEntry k]\<rparr>, length (multilines c)))"

definition handleUnorderedGroupMode :: "'d multiLineParser \<Rightarrow> LabelSet \<Rightarrow> int \<Rightarrow> string \<Rightarrow> int
    \<Rightarrow> 'd downstream \<Rightarrow> (error option \<times> 'd multiLineParser \<times> 'd downstream) option" where
  "handleUnorderedGroupMode c lbls t e now ds =
     (case disjoint (expressionRegex c) e of
        (k, inv') \<Rightarrow>
          (case fetchLine c k of
             (c1, i) \<Rightarrow>
               (let ml = multilines c1 ! i in
                if lines ml > 0
                then (let line = (if nextLineRegex c \<noteq> None
                                  then selection (nextLineRegex c) e else inv')
                      in Some (None,
                           c1\<lparr>multilines :=
                                (multilines c1)[i := append_entry ml lbls line (separator c)]\<rparr>,
                           ds))
                else Some (None,
                       c1\<lparr>multilines :=
                            (multilines c1)
                              [i := (init ml lbls t (selection (firstLineRegex c) e) now)
                                      \<lparr>key := k\<rparr>]\<rparr>,
                       ds))))"

definition handleContinueMode :: "'d multiLineParser \<Rightarrow> LabelSet \<Rightarrow> int \<Rightarrow> string \<Rightarrow> int
    \<Rightarrow> 'd downstream \<Rightarrow> (error option \<times> 'd multiLineParser \<times> 'd downstream) option" where
  "handleContinueMode c lbls t e now ds =
     (case multiline c of
        None \<Rightarrow> None
      | Some ml \<Rightarrow>
          (let line = selection (Some (expressionRegex c)) e in
           if line \<noteq> []
           then (if lines ml > 0
                 then Some (None,
                        c\<lparr>multiline :=
                            Some (append_entry ml lbls (selection (nextLineRegex c) line) (separator c))\<rparr>,
                        ds)
                 else Some (None,
                        c\<lparr>multiline :=
                            Some (init ml lbls t (selection (firstLineRegex c) line) now)\<rparr>,
                        ds))
           else (if lines ml > 0
                 then (let ml1 = append_entry ml lbls (selection (nextLineRegex c) e) (separator c)
                       in case next_Handle c (labels ml1) (timestamp ml1) (entry ml1) ds of
                            (err, ds') \<Rightarrow> Some (err, c\<lparr>multiline := Some (reset ml1)\<rparr>, ds'))
                 else (case next_Handle c lbls t e ds of
                         (err, ds') \<Rightarrow> Some (err, c, ds')))))"

text \<open>\<^verbatim>\<open>Handle\<close>: a \<^verbatim>\<open>nil\<close> label set (\<open>None\<close>) becomes the empty one.\<close>

definition Handle :: "'d multiLineParser \<Rightarrow> LabelSet option \<Rightarrow> int \<Rightarrow> string \<Rightarrow> int
    \<Rightarrow> 'd downstream \<Rightarrow> (error option \<times> 'd multiLineParser \<times> 'd downstream) option" where
  "Handle c lbls t e now ds =
     (let lbls1 = (case lbls of None \<Rightarrow> Map.empty | Some l \<Rightarrow> l) in
      case modeHandler c of
        NewLine \<Rightarrow> handleNewLineMode c lbls1 t e now ds
      | Group \<Rightarrow> handleGroupMode c lbls1 t e now ds
      | UnorderedGroup \<Rightarrow> handleUnorderedGroupMode c lbls1 t e now ds
      | Continue \<Rightarrow> handleContinueMode c lbls1 t e now ds)"

subsection \<open>NewMultiLineParser\<close>

definition ErrEmptyMultiLineConfig :: string where
  "ErrEmptyMultiLineConfig = ''empty configuration''"

definition ErrCouldNotCompileMultiLineExpressionRegex :: string where
  "ErrCouldNotCompileMultiLineExpressionRegex = ''could not compile expression''"

definition ErrCouldNotCompileMultiLineFirstLineRegex :: string where
  "ErrCouldNotCompileMultiLineFirstLineRegex = ''could not compile first_expression''"

definition ErrCouldNotCompileMultiLineNextLineRegex :: string where
  "ErrCouldNotCompileMultiLineNextLineRegex = ''could not compile next_expression''"

definition ErrCouldMultiLineExpressionRequiredRegex :: string where
  "ErrCouldMultiLineExpressionRequiredRegex = ''expression is required''"

definition ErrMultiLineUnsupportedMode :: string where
  "ErrMultiLineUnsupportedMode = ''unsupported mode''"

definition ErrMultiLineUnvalidMaxWaitTime :: string where
  "ErrMultiLineUnvalidMaxWaitTime = ''invalid max_idle_duration duration''"

definition ErrMultiLineModeRequireMaxWait :: string where
  "ErrMultiLineModeRequireMaxWait = ''mode require max_idle_duration duration > 0 ''"

record Config =
  Mode :: string
  Expression :: string
  FirstLineExpression :: string
  NextLineExpression :: string
  IdleDuration :: string
  Separator :: string

text \<open>
  The constructor returns an error, or an instance, or panics: \<^verbatim>\<open>time.NewTicker(d)\<close>
  panics unless \<open>d > 0\<close> (package \<^verbatim>\<open>time\<close>: ``The duration d must be greater than zero; if
  not, NewTicker will panic''), and so does a warning logged through a \<^verbatim>\<open>nil\<close> logger.
\<close>

datatype 'd construction = Failed error | Created "'d multiLineParser" | Panic

definition NewTicker :: "int \<Rightarrow> Ticker option" where
  "NewTicker d = (if d \<le> 0 then None else Some \<lparr>interval = d, stopped = False\<rparr>)"

text \<open>
  \<^verbatim>\<open>startFlusher\<close>: the ticker interval is \<^verbatim>\<open>c.maxWait / 2\<close>, Go's division truncating
  towards zero. The goroutine it starts is \<open>sweep\<close>, run at the ticker's instants.
\<close>

definition go_div2 :: "int \<Rightarrow> int" where
  "go_div2 d = (if d < 0 then - ((- d) div 2) else d div 2)"

definition startFlusher :: "'d multiLineParser \<Rightarrow> 'd multiLineParser option" where
  "startFlusher c =
     (case NewTicker (go_div2 (maxWait c)) of
        None \<Rightarrow> None
      | Some tk \<Rightarrow> Some (c\<lparr>flusher := Some tk\<rparr>))"

text \<open>The four cases of the switch on \<open>config.Mode\<close>: handler, multitrack, requireMaxWait.\<close>

definition mode_switch :: "string \<Rightarrow> (ModeHandler \<times> bool \<times> bool) option" where
  "mode_switch m =
     (if m = ''newline'' then Some (NewLine, False, False)
      else if m = ''group'' then Some (Group, False, True)
      else if m = ''unordered_group'' then Some (UnorderedGroup, True, True)
      else if m = ''continue'' then Some (Continue, False, False)
      else None)"

text \<open>The default handler installed when \<open>next\<close> is \<^verbatim>\<open>nil\<close>.\<close>

definition nop_handler :: "'d EntryHandler" where
  "nop_handler d lbls t e = (None, d)"

text \<open>
  \<^verbatim>\<open>regexp.Compile\<close> and \<^verbatim>\<open>time.ParseDuration\<close> (whose result is a \<^verbatim>\<open>Duration\<close>) are the
  first two arguments. A \<^verbatim>\<open>nil\<close> \<open>logger\<close>, \<open>config\<close> or \<open>next\<close> is \<open>None\<close>. With a \<^verbatim>\<open>nil\<close>
  \<open>logger\<close> the code assigns a no-op logger to its local variable and leaves \<open>ml.logger\<close>
  \<^verbatim>\<open>nil\<close>; the two warnings are logged through \<open>ml.logger\<close>.
\<close>

definition NewMultiLineParser :: "(string \<Rightarrow> error + Regexp) \<Rightarrow> (string \<Rightarrow> error + int)
    \<Rightarrow> Logger option \<Rightarrow> Config option \<Rightarrow> 'd EntryHandler option \<Rightarrow> 'd construction" where
  "NewMultiLineParser Compile ParseDuration lg config nxt =
     (case config of
        None \<Rightarrow> Failed (Error ErrEmptyMultiLineConfig)
      | Some cfg \<Rightarrow>
     if \<not> length (Expression cfg) > 0
     then Failed (Error ErrCouldMultiLineExpressionRequiredRegex)
     else
     (case Compile (Expression cfg) of
        Inl err \<Rightarrow> Failed (Wrap err ErrCouldNotCompileMultiLineExpressionRegex)
      | Inr expr \<Rightarrow>
     (case (if length (FirstLineExpression cfg) > 0
            then map_sum id Some (Compile (FirstLineExpression cfg)) else Inr None) of
        Inl err \<Rightarrow> Failed (Wrap err ErrCouldNotCompileMultiLineFirstLineRegex)
      | Inr firstRe \<Rightarrow>
     (case (if length (NextLineExpression cfg) > 0
            then map_sum id Some (Compile (NextLineExpression cfg)) else Inr None) of
        Inl err \<Rightarrow> Failed (Wrap err ErrCouldNotCompileMultiLineNextLineRegex)
      | Inr nextRe \<Rightarrow>
     (case (if IdleDuration cfg \<noteq> [] then ParseDuration (IdleDuration cfg)
            else Inr (5 * 1000000000)) of
        Inl err \<Rightarrow> Failed (Wrap err ErrMultiLineUnvalidMaxWaitTime)
      | Inr wait \<Rightarrow>
     (case mode_switch (Mode cfg) of
        None \<Rightarrow> Failed (Error ErrMultiLineUnsupportedMode)
      | Some (h, multi, requireMaxWait) \<Rightarrow>
     (let ml = \<lparr>modeHandler = h, expressionRegex = expr, firstLineRegex = firstRe,
                nextLineRegex = nextRe, maxWait = wait, separator = Separator cfg,
                logger = (case lg of
                            None \<Rightarrow> None
                          | Some l \<Rightarrow> Some (With l [''component'', ''multiline''])),
                multitrack = multi, multilines = [],
                multiline = (if multi then None else Some (newMultiLineEntry [])),
                flusher = None,
                nextHandler = (case nxt of None \<Rightarrow> nop_handler | Some n \<Rightarrow> n)\<rparr>
      in case (if nxt = None then Log (logger ml) else Some ()) of
           None \<Rightarrow> Panic
         | Some u \<Rightarrow>
             if maxWait ml > 0
             then (case startFlusher ml of None \<Rightarrow> Panic | Some ml' \<Rightarrow> Created ml')
             else if requireMaxWait then Failed (Error ErrMultiLineModeRequireMaxWait)
             else (case Log (logger ml) of None \<Rightarrow> Panic | Some v \<Rightarrow> Created ml))))))))"

subsection \<open>Executions and auxiliary notions\<close>

text \<open>
  A parser is allocated when the registry its mode uses exists, and well formed when,
  moreover, it is multitrack exactly in the unordered group mode and no line count is
  negative. The constructor creates well-formed parsers and every operation keeps them so
  (lemmas \<open>NewMultiLineParser_well_formed\<close>, \<open>run_well_formed\<close>); on a well-formed parser
  with a logger no operation panics.
\<close>

definition allocated :: "'d multiLineParser \<Rightarrow> bool" where
  "allocated c = (multitrack c \<or> multiline c \<noteq> None)"

text \<open>
  A caller feeding lines one after the other: each line comes with its label set, its
  timestamp and the instant of the call. The result lists the error of every call.
\<close>

fun Handle_all :: "'d multiLineParser \<Rightarrow> (LabelSet option \<times> int \<times> string \<times> int) list
    \<Rightarrow> 'd downstream \<Rightarrow> (error option list \<times> 'd multiLineParser \<times> 'd downstream) option" where
  "Handle_all c [] ds = Some ([], c, ds)"
| "Handle_all c ((lbls, t, e, now) # rest) ds =
     (case Handle c lbls t e now ds of
        None \<Rightarrow> None
      | Some (err, c', ds') \<Rightarrow>
          (case Handle_all c' rest ds' of
             None \<Rightarrow> None
           | Some (errs, c'', ds'') \<Rightarrow> Some (err # errs, c'', ds'')))"

text \<open>
  An execution of a parser: the calls of \<open>Handle\<close> by the caller, the ticks of the flusher
  and the calls of \<open>Flush\<close>, each at its instant, one after the other (the mutex serialises
  them). The errors they return are not kept.
\<close>

datatype operation = Line "LabelSet option" int string | Tick | ForcedFlush

fun run :: "'d multiLineParser \<Rightarrow> (int \<times> operation) list \<Rightarrow> 'd downstream
    \<Rightarrow> ('d multiLineParser \<times> 'd downstream) option" where
  "run c [] ds = Some (c, ds)"
| "run c ((now, Line lbls t e) # ops) ds =
     (case Handle c lbls t e now ds of
        None \<Rightarrow> None
      | Some (err, c', ds') \<Rightarrow> run c' ops ds')"
| "run c ((now, Tick) # ops) ds =
     (case sweep c now ds of
        None \<Rightarrow> None
      | Some (c', ds') \<Rightarrow> run c' ops ds')"
| "run c ((now, ForcedFlush) # ops) ds =
     (case Flush c now ds of
        None \<Rightarrow> None
      | Some (err, c', ds') \<Rightarrow> run c' ops ds')"

text \<open>The records a parser tracks, and what the downstream receives when one is delivered.\<close>

definition tracked :: "'d multiLineParser \<Rightarrow> multilineEntry list" where
  "tracked c =
     (if multitrack c then multilines c
      else (case multiline c of None \<Rightarrow> [] | Some t \<Rightarrow> [t]))"

definition call_of :: "multilineEntry \<Rightarrow> LabelSet \<times> int \<times> string" where
  "call_of t = (labels t, timestamp t, entry t)"

definition well_formed :: "'d multiLineParser \<Rightarrow> bool" where
  "well_formed c =
     (multitrack c = (modeHandler c = UnorderedGroup) \<and> allocated c
      \<and> list_all (\<lambda>t. 0 \<le> lines t) (tracked c))"

text \<open>
  The delivery rule of a pass: a record is delivered when its line count is positive and the
  pass is forced or the age of the record, the duration \<open>Sub now enrollTime\<close>, exceeds the
  idle duration. \<open>due_exact\<close> is the rule in the words of the specification, with the exact
  difference \<open>now - enrollTime\<close>.
\<close>

definition due :: "'d multiLineParser \<Rightarrow> bool \<Rightarrow> int \<Rightarrow> multilineEntry \<Rightarrow> bool" where
  "due c force now t = (lines t > 0 \<and> (force \<or> Sub now (enrollTime t) > maxWait c))"

definition due_exact :: "'d multiLineParser \<Rightarrow> bool \<Rightarrow> int \<Rightarrow> multilineEntry \<Rightarrow> bool" where
  "due_exact c force now t = (lines t > 0 \<and> (force \<or> now - enrollTime t > maxWait c))"

text \<open>
  The answers of a handler, started in state \<open>d\<close>, to a list of calls, and the state it
  ends in.
\<close>

fun replies :: "'d EntryHandler \<Rightarrow> 'd \<Rightarrow> (LabelSet \<times> int \<times> string) list
    \<Rightarrow> error option list \<times> 'd" where
  "replies h d [] = ([], d)"
| "replies h d ((lbls, t, e) # cs) =
     (case h d lbls t e of
        (r, d') \<Rightarrow> (case replies h d' cs of (rs, d'') \<Rightarrow> (r # rs, d'')))"

subsection \<open>Construction errors\<close>

text \<open>
  The construction errors in the words of the specification: the effective idle duration
  (5 seconds when the text is empty, nothing when the text does not parse), and when a
  configuration is rejected.
\<close>

definition effective_wait :: "(string \<Rightarrow> error + int) \<Rightarrow> Config \<Rightarrow> int option" where
  "effective_wait ParseDuration cfg =
     (if IdleDuration cfg = [] then Some (5 * 1000000000)
      else (case ParseDuration (IdleDuration cfg) of Inl err \<Rightarrow> None | Inr w \<Rightarrow> Some w))"

definition rejected :: "(string \<Rightarrow> error + Regexp) \<Rightarrow> (string \<Rightarrow> error + int)
    \<Rightarrow> Config option \<Rightarrow> bool" where
  "rejected Compile ParseDuration config =
     (case config of
        None \<Rightarrow> True
      | Some cfg \<Rightarrow>
          Expression cfg = [] \<or> isl (Compile (Expression cfg))
        \<or> (FirstLineExpression cfg \<noteq> [] \<and> isl (Compile (FirstLineExpression cfg)))
        \<or> (NextLineExpression cfg \<noteq> [] \<and> isl (Compile (NextLineExpression cfg)))
        \<or> Mode cfg \<notin> {''newline'', ''group'', ''unordered_group'', ''continue''}
        \<or> (case effective_wait ParseDuration cfg of
              None \<Rightarrow> True
            | Some w \<Rightarrow> Mode cfg \<in> {''group'', ''unordered_group''} \<and> w \<le> 0))"

subsection \<open>Partitions of a line\<close>

text \<open>
  The characters of \<open>xs\<close> at the positions a mask \<open>bs\<close> marks, in their order. A mask and its
  complement split a line into two subsequences that hold every position exactly once.
\<close>

definition pick :: "bool list \<Rightarrow> 'a list \<Rightarrow> 'a list" where
  "pick bs xs = map fst (filter snd (zip xs bs))"

text \<open>
  The loop invariant of \<^verbatim>\<open>disjoint\<close>: the pieces collected so far split the prefix of the
  line that ends at the cursor \<open>last\<close>.
\<close>

definition split_upto :: "string \<Rightarrow> string list \<times> string list \<times> int \<Rightarrow> bool" where
  "split_upto s st =
     (case st of (sel, inv', last') \<Rightarrow>
        0 \<le> last' \<and>
        (\<exists>bs. length bs = length (take (nat last') s)
             \<and> concat sel = pick bs (take (nat last') s)
             \<and> concat inv' = pick (map Not bs) (take (nat last') s)))"

subsection \<open>Example values\<close>

text \<open>
  The expression \<^verbatim>\<open>^(\S+)\<close> of the tests: one match, the leading run of non-space
  characters, which is also its only group.
\<close>

definition is_space :: "char \<Rightarrow> bool" where
  "is_space ch = (ch = CHR '' '' \<or> ch = CHR 0x09 \<or> ch = CHR 0x0A \<or> ch = CHR 0x0C \<or> ch = CHR 0x0D)"

definition key_regexp :: Regexp where
  "key_regexp =
     \<lparr>Match = (\<lambda>s. takeWhile (\<lambda>ch. \<not> is_space ch) s \<noteq> []),
      FindAllSubmatchIndex = (\<lambda>s.
        let k = int (length (takeWhile (\<lambda>ch. \<not> is_space ch) s))
        in if k = 0 then [] else [[0, k, 0, k]])\<rparr>"

text \<open>A regexp given by the offsets it finds in the one line it is used on.\<close>

definition fixed_matches :: "int list list \<Rightarrow> Regexp" where
  "fixed_matches ms = \<lparr>Match = (\<lambda>s. ms \<noteq> []), FindAllSubmatchIndex = (\<lambda>s. ms)\<rparr>"

text \<open>A downstream that counts its calls and fails every one of them.\<close>

definition failing_handler :: "nat EntryHandler" where
  "failing_handler d lbls t e = (Some (Error ''refused''), Suc d)"

definition ds0 :: "nat downstream" where
  "ds0 = \<lparr>dstate = 0, received = []\<rparr>"

text \<open>
  Parsers as the constructor builds them for the modes \<open>group\<close> and \<open>unordered_group\<close>,
  with an idle duration of 10 and the failing downstream.
\<close>

definition group_parser :: "nat multiLineParser" where
  "group_parser =
     \<lparr>modeHandler = Group, expressionRegex = key_regexp, firstLineRegex = None,
      nextLineRegex = None, maxWait = 10, separator = [],
      logger = Some (Logger [''component'', ''multiline'']), multitrack = False,
      multilines = [], multiline = Some (newMultiLineEntry []),
      flusher = Some \<lparr>interval = 5, stopped = False\<rparr>, nextHandler = failing_handler\<rparr>"

definition unordered_parser :: "nat multiLineParser" where
  "unordered_parser =
     \<lparr>modeHandler = UnorderedGroup, expressionRegex = key_regexp, firstLineRegex = None,
      nextLineRegex = None, maxWait = 10, separator = [],
      logger = Some (Logger [''component'', ''multiline'']), multitrack = True,
      multilines = [], multiline = None,
      flusher = Some \<lparr>interval = 5, stopped = False\<rparr>, nextHandler = failing_handler\<rparr>"

text \<open>The group parser holding one record of one line, enrolled at instant 0.\<close>

definition pending_record :: multilineEntry where
  "pending_record = \<lparr>enrollTime = 0, labels = Map.empty, timestamp = 100, key = ''G:1'',
      entry = ''G:1 event'', lines = 1\<rparr>"

definition pending_parser :: "nat multiLineParser" where
  "pending_parser = group_parser\<lparr>multiline := Some pending_record\<rparr>"

text \<open>
  The unordered parser tracking two records: the first enrolled at instant 0 with two
  lines, the second enrolled at instant 8 with one line.
\<close>

definition busy_parser :: "nat multiLineParser" where
  "busy_parser = unordered_parser\<lparr>multilines :=
      [\<lparr>enrollTime = 0, labels = Map.empty, timestamp = 100, key = ''G:1'',
        entry = ''G:1 event one'', lines = 2\<rparr>,
       \<lparr>enrollTime = 8, labels = Map.empty, timestamp = 101, key = ''G:2'',
        entry = ''G:2 event'', lines = 1\<rparr>]\<rparr>"

text \<open>
  A parser in newline mode as the constructor builds it for the idle duration
  \<^verbatim>\<open>2562047h47m16.854775807s\<close>, the maximum duration; the record its slot holds after a
  first line that does not match the expression, which is appended to the slot as it was
  allocated; and the parser holding that record.
\<close>

definition patient_parser :: "nat multiLineParser" where
  "patient_parser =
     \<lparr>modeHandler = NewLine, expressionRegex = key_regexp, firstLineRegex = None,
      nextLineRegex = None, maxWait = 9223372036854775807, separator = [],
      logger = Some (Logger [''component'', ''multiline'']), multitrack = False,
      multilines = [], multiline = Some (newMultiLineEntry []),
      flusher = Some \<lparr>interval = 4611686018427387903, stopped = False\<rparr>,
      nextHandler = failing_handler\<rparr>"

definition waiting_record :: multilineEntry where
  "waiting_record = \<lparr>enrollTime = 0, labels = Map.empty, timestamp = 0, key = [],
      entry = '' subline'', lines = 1\<rparr>"

definition waiting_parser :: "nat multiLineParser" where
  "waiting_parser = patient_parser\<lparr>multiline := Some waiting_record\<rparr>"

text \<open>A duration parser that knows two texts.\<close>

definition ParseDuration_ns :: "string \<Rightarrow> error + int" where
  "ParseDuration_ns s =
     (if s = ''1ns'' then Inr 1 else if s = ''10ns'' then Inr 10
      else Inl (Error ''time: invalid duration''))"

section \<open>Properties\<close>

subsection \<open>The tests of the repository\<close>

text \<open>
  The model on inputs of \<^verbatim>\<open>multiline_test.go\<close>: the cases \<open>t1\<close>, \<open>t2\<close> and \<open>t4\<close> of
  \<^verbatim>\<open>TestMultilineDisjoint\<close>, with the offsets Go's regexp package finds for their
  expressions, and the cases ``group mode'' and ``group mode unordered'' of
  \<^verbatim>\<open>TestMultilineModes\<close>.
\<close>

lemma disjoint_test_vectors:
  "disjoint (fixed_matches [[0, 4, 2, 4], [4, 7, 6, 7]]) ''F:1 F:2'' = (''1 2'', ''F:F:'')"
  "disjoint (fixed_matches [[4, 15, 4, 8, 12, 15]]) ''E:1 F:1 G:1 H:1''
     = (''F:1 H:1'', ''E:1 G:1 '')"
  "disjoint (fixed_matches
       [[0, 0, -1, -1, -1, -1, -1, -1], [1, 1, -1, -1, -1, -1, -1, -1],
        [2, 2, -1, -1, -1, -1, -1, -1], [3, 3, -1, -1, -1, -1, -1, -1],
        [4, 36, 4, 36, 4, 8, 32, 36], [37, 37, -1, -1, -1, -1, -1, -1],
        [38, 38, -1, -1, -1, -1, -1, -1], [39, 39, -1, -1, -1, -1, -1, -1]])
     ''E:1 F:1 G:1 H:1 I:1 E:2 F:2 G:2 H:2 I:2''
     = (''F:1 G:1 H:1 I:1 E:2 F:2 G:2 H:2 '', ''E:1 I:2'')"
  by (simp_all add: disjoint_def fixed_matches_def slice_def)

lemma group_mode_tests:
  "map_option (\<lambda>(c, ds). map (snd \<circ> snd) (received ds))
     (run group_parser
        [(1, Line None 0 ''G:1 event''), (2, Line None 0 ''G:1 one''),
         (3, Line None 0 ''G:2 event''), (4, Line None 0 ''G:2 two''), (5, ForcedFlush)] ds0)
   = Some [''G:1 event one'', ''G:2 event two'']"
  "map_option (\<lambda>(c, ds). map (snd \<circ> snd) (received ds))
     (run unordered_parser
        [(1, Line None 0 ''G:1 event''), (2, Line None 0 ''G:2 event''),
         (3, Line None 0 ''G:1 one''), (4, Line None 0 ''G:2 two''), (5, ForcedFlush)] ds0)
   = Some [''G:1 event one'', ''G:2 event two'']"
  by (simp_all add: group_parser_def unordered_parser_def ds0_def Handle_def handleGroupMode_def
      handleUnorderedGroupMode_def fetchLine_def disjoint_def
      key_regexp_def is_space_def slice_def selection_def init_def append_entry_def reset_def
      newMultiLineEntry_def Flush_def flush_def next_Handle_def failing_handler_def
      Clone_def Merge_def join_def Add_def Err_def Let_def)

subsection \<open>Entries\<close>

lemma append_entry_labels: "labels (append_entry d lbls e sep) = lbls"
  by (simp add: append_entry_def Merge_def map_add_def fun_eq_iff split: option.splits)

lemma append_entry_frozen:
  "timestamp (append_entry d lbls e sep) = timestamp d"
  "enrollTime (append_entry d lbls e sep) = enrollTime d"
  "key (append_entry d lbls e sep) = key d"
  by (simp_all add: append_entry_def)

text \<open>
  Claim C1 asks that an append merges the labels of the incoming line into the labels the
  record has accumulated, so that the labels of earlier lines stay in the record. The code
  merges the incoming label set with itself (lemma \<open>append_entry_labels\<close>): a record
  started with the label \<open>job\<close> has lost it after the append of a line labelled \<open>level\<close>.
\<close>

theorem append_entry_drops_accumulated_labels:
  "labels (append_entry (init (newMultiLineEntry []) [''job'' \<mapsto> ''a''] 10 ''first'' 0)
             [''level'' \<mapsto> ''x''] ''second'' []) ''job'' = None
   \<and> labels (init (newMultiLineEntry []) [''job'' \<mapsto> ''a''] 10 ''first'' 0) ''job'' = Some ''a''"
  by (simp add: append_entry_labels init_def Clone_def)

subsection \<open>The unordered group mode\<close>

lemma handleUnorderedGroupMode_silent:
  "\<exists>c'. handleUnorderedGroupMode c lbls t e now ds = Some (None, c', ds)
        \<and> modeHandler c' = modeHandler c"
  by (auto simp: handleUnorderedGroupMode_def Let_def fetchLine_def split: prod.splits option.splits)

lemma Handle_unordered_silent:
  "modeHandler c = UnorderedGroup \<Longrightarrow>
   \<exists>c'. Handle c lbls t e now ds = Some (None, c', ds) \<and> modeHandler c' = UnorderedGroup"
  using handleUnorderedGroupMode_silent [of c _ t e now ds]
  by (simp add: Handle_def Let_def)

text \<open>
  Claim C8: in the mode \<open>unordered_group\<close>, \<open>Handle\<close> never calls the downstream handler
  and returns no error, for every sequence of incoming lines: every call returns, its error
  is \<^verbatim>\<open>nil\<close>, and the downstream (its state and the calls it has received) is as before.
\<close>

theorem unordered_group_never_delivers:
  "modeHandler c = UnorderedGroup \<Longrightarrow>
   \<exists>c'. Handle_all c ls ds = Some (replicate (length ls) None, c', ds)
        \<and> modeHandler c' = UnorderedGroup"
proof (induction ls arbitrary: c)
  case Nil
  then show ?case by simp
next
  case (Cons x xs)
  obtain lbls t e now where x: "x = (lbls, t, e, now)" by (cases x) auto
  from Cons.prems obtain c1 where
    h: "Handle c lbls t e now ds = Some (None, c1, ds)" and m: "modeHandler c1 = UnorderedGroup"
    using Handle_unordered_silent by blast
  from Cons.IH [OF m] obtain c2 where
    "Handle_all c1 xs ds = Some (replicate (length xs) None, c2, ds)"
    "modeHandler c2 = UnorderedGroup" by blast
  with h x show ?case by simp
qed

theorem unordered_group_never_delivers_witness:
  "modeHandler unordered_parser = UnorderedGroup
   \<and> (\<exists>c'. Handle_all unordered_parser
              [(None, 100, ''G:1 event'', 1), (None, 101, ''G:2 event'', 2),
               (None, 102, ''G:1 one'', 3)] ds0
            = Some ([None, None, None], c', ds0))"
  using unordered_group_never_delivers [of unordered_parser
          "[(None, 100, ''G:1 event'', 1), (None, 101, ''G:2 event'', 2),
            (None, 102, ''G:1 one'', 3)]" ds0]
  by (auto simp: unordered_parser_def)

subsection \<open>flush and Stop\<close>

lemma flush_flusher:
  "flush c force now ds = Some (err, c', ds') \<Longrightarrow> flusher c' = flusher c"
  by (auto simp: flush_def split: if_splits option.splits prod.splits)

lemma flush_total:
  "allocated c \<Longrightarrow> \<exists>err c' ds'. flush c force now ds = Some (err, c', ds')"
  by (auto simp: flush_def allocated_def split: if_splits option.splits prod.splits)

text \<open>
  Claim C10: \<open>Stop\<close> always returns \<^verbatim>\<open>nil\<close>. It stops the ticker when there is one and runs
  a forced flush; the parser and the downstream are those the flush leaves, and the error
  \<open>err\<close> of the flush is not what \<open>Stop\<close> returns.
\<close>

theorem Stop_returns_nil:
  assumes "allocated c"
  shows "\<exists>err c2 ds'.
           flush (case flusher c of None \<Rightarrow> c | Some f \<Rightarrow> c\<lparr>flusher := Some (f\<lparr>stopped := True\<rparr>)\<rparr>)
             True now ds = Some (err, c2, ds')
         \<and> Stop c now ds = Some (None, c2, ds')
         \<and> flusher c2 = map_option (\<lambda>f. f\<lparr>stopped := True\<rparr>) (flusher c)"
proof -
  let ?c1 = "case flusher c of None \<Rightarrow> c | Some f \<Rightarrow> c\<lparr>flusher := Some (f\<lparr>stopped := True\<rparr>)\<rparr>"
  have "allocated ?c1" using assms by (simp add: allocated_def split: option.splits)
  then obtain err c2 ds' where f: "flush ?c1 True now ds = Some (err, c2, ds')"
    using flush_total by blast
  have "flusher c2 = flusher ?c1" using f by (rule flush_flusher)
  then have "flusher c2 = map_option (\<lambda>f. f\<lparr>stopped := True\<rparr>) (flusher c)"
    by (simp split: option.splits)
  moreover have "Stop c now ds = Some (None, c2, ds')"
    using f by (simp add: Stop_def)
  ultimately show ?thesis using f by blast
qed

theorem Stop_returns_nil_witness:
  "allocated pending_parser
   \<and> (\<exists>c2 ds'.
         flush (pending_parser\<lparr>flusher := Some \<lparr>interval = 5, stopped = True\<rparr>\<rparr>) True 3 ds0
           = Some (Some (MultiError [Error ''refused'']), c2, ds')
         \<and> Stop pending_parser 3 ds0 = Some (None, c2, ds')
         \<and> received ds' = [(Map.empty, 100, ''G:1 event'')]
         \<and> flusher c2 = Some \<lparr>interval = 5, stopped = True\<rparr>)"
  using Stop_returns_nil [of pending_parser 3 ds0]
  by (auto simp: allocated_def pending_parser_def pending_record_def group_parser_def flush_def
      next_Handle_def failing_handler_def ds0_def Add_def Err_def)

lemma flush_loop_eq:
  "flush_loop c force now ts (err, ng, ds) =
     (case replies (nextHandler c) (dstate ds)
             (map call_of (filter (\<lambda>t. lines t \<noteq> 0 \<and> (force \<or> Sub now (enrollTime t) > maxWait c)) ts)) of
        (rs, d') \<Rightarrow>
          (foldl Add err rs,
           ng @ filter (\<lambda>t. lines t \<noteq> 0 \<and> \<not> (force \<or> Sub now (enrollTime t) > maxWait c)) ts,
           \<lparr>dstate = d', received = received ds @
              map call_of (filter (\<lambda>t. lines t \<noteq> 0 \<and> (force \<or> Sub now (enrollTime t) > maxWait c)) ts)\<rparr>))"
  (is "_ = ?rhs ts err ng ds")
proof (induction ts arbitrary: err ng ds)
  case Nil
  show ?case by simp
next
  case (Cons t ts)
  consider (empty) "lines t = 0"
    | (send) "lines t \<noteq> 0" "force \<or> Sub now (enrollTime t) > maxWait c"
    | (keep) "lines t \<noteq> 0" "\<not> (force \<or> Sub now (enrollTime t) > maxWait c)"
    by blast
  then show ?case
  proof cases
    case empty
    then show ?thesis using Cons.IH [of err ng ds] by simp
  next
    case send
    obtain r d1 where h: "nextHandler c (dstate ds) (labels t) (timestamp t) (entry t) = (r, d1)"
      by (cases "nextHandler c (dstate ds) (labels t) (timestamp t) (entry t)") auto
    from send h show ?thesis
      using Cons.IH [of "Add err r" ng "\<lparr>dstate = d1, received = received ds @ [(labels t, timestamp t, entry t)]\<rparr>"]
      by (simp add: next_Handle_def call_of_def split: prod.splits)
  next
    case keep
    then show ?thesis using Cons.IH [of err "ng @ [t]" ds] by (simp split: prod.splits)
  qed
qed



lemma flush_multitrack:
  assumes "multitrack c"
    and "replies (nextHandler c) (dstate ds)
           (map call_of (filter (\<lambda>t. lines t \<noteq> 0 \<and> (force \<or> Sub now (enrollTime t) > maxWait c))
              (multilines c))) = (rs, d')"
  shows "flush c force now ds =
     Some (Err (foldl Add [] rs),
       c\<lparr>multilines :=
           filter (\<lambda>t. lines t \<noteq> 0 \<and> \<not> (force \<or> Sub now (enrollTime t) > maxWait c)) (multilines c)\<rparr>,
       \<lparr>dstate = d', received = received ds @
          map call_of (filter (\<lambda>t. lines t \<noteq> 0 \<and> (force \<or> Sub now (enrollTime t) > maxWait c))
            (multilines c))\<rparr>)"
  unfolding flush_def flush_loop_eq using assms by simp

text \<open>What a pass of \<open>flush\<close> delivers and what it leaves, in terms of \<open>due\<close>.\<close>

lemma flush_due_records:
  assumes "allocated c" and "list_all (\<lambda>t. 0 \<le> lines t) (tracked c)"
  shows "\<exists>err c' ds'. flush c force now ds = Some (err, c', ds')
     \<and> received ds' = received ds @ map call_of (filter (due c force now) (tracked c))
     \<and> tracked c' =
         (if multitrack c then filter (\<lambda>t. lines t > 0 \<and> \<not> due c force now t) (tracked c)
          else map (\<lambda>t. if due c force now t then reset t else t) (tracked c))"
proof (cases "multitrack c")
  case True
  have nn: "\<And>t. t \<in> set (multilines c) \<Longrightarrow> 0 \<le> lines t"
    using assms(2) True by (simp add: tracked_def list_all_iff)
  have p: "filter (\<lambda>t. lines t \<noteq> 0 \<and> (force \<or> Sub now (enrollTime t) > maxWait c)) (multilines c)
           = filter (due c force now) (multilines c)"
    by (rule filter_cong [OF refl]) (use nn in \<open>fastforce simp: due_def\<close>)
  have q: "filter (\<lambda>t. lines t \<noteq> 0 \<and> \<not> (force \<or> Sub now (enrollTime t) > maxWait c)) (multilines c)
           = filter (\<lambda>t. lines t > 0 \<and> \<not> due c force now t) (multilines c)"
    by (rule filter_cong [OF refl]) (use nn in \<open>fastforce simp: due_def\<close>)
  obtain rs d' where r: "replies (nextHandler c) (dstate ds)
           (map call_of (filter (\<lambda>t. lines t \<noteq> 0 \<and> (force \<or> Sub now (enrollTime t) > maxWait c))
              (multilines c))) = (rs, d')"
    by (meson surj_pair)
  have "flush c force now ds =
     Some (Err (foldl Add [] rs),
       c\<lparr>multilines := filter (\<lambda>t. lines t > 0 \<and> \<not> due c force now t) (multilines c)\<rparr>,
       \<lparr>dstate = d', received = received ds @
          map call_of (filter (due c force now) (multilines c))\<rparr>)"
    using flush_multitrack [OF True r] unfolding p q .
  then show ?thesis using True by (simp add: tracked_def)
next
  case False
  then obtain t where t: "multiline c = Some t"
    using assms(1) by (auto simp: allocated_def)
  show ?thesis
  proof (cases "due c force now t")
    case True
    obtain r ds1 where h: "next_Handle c (labels t) (timestamp t) (entry t) ds = (r, ds1)"
      by (meson surj_pair)
    then have rec: "received ds1 = received ds @ [call_of t]"
      by (auto simp: next_Handle_def call_of_def split: prod.splits)
    have "flush c force now ds = Some (Err (Add [] r), c\<lparr>multiline := Some (reset t)\<rparr>, ds1)"
      using True False t h by (simp add: flush_def due_def)
    then show ?thesis using True False t rec by (simp add: tracked_def)
  next
    case nd: False
    have "flush c force now ds = Some (Err [], c, ds)"
      using nd False t by (auto simp: flush_def due_def)
    then show ?thesis using nd False t by (simp add: tracked_def)
  qed
qed

lemma Sub_exact:
  "minDuration \<le> w \<Longrightarrow> w < maxDuration \<Longrightarrow> w < Sub t u \<longleftrightarrow> w < t - u"
  by (auto simp: Sub_def)

text \<open>
  Claim C5 says that an unforced pass delivers a record if and only if its line count is
  positive and \<open>now - enrollTime\<close> exceeds the idle duration. The age the code compares is
  the duration \<^verbatim>\<open>now.Sub(t.enrollTime)\<close>, which is never more than the maximum duration: with
  that idle duration no record is ever old enough. The line \<open>subline\<close> entering the newline
  parser at an instant of the year 2022 is appended to the slot as allocated, whose
  \<open>enrollTime\<close> is the zero instant; a pass a millisecond later finds a record with one line
  and an age of two thousand years, and delivers nothing.
\<close>

theorem flush_holds_record_at_maximum_idle_duration:
  "run patient_parser [(63800000000000000000, Line None 63800000000000000000 '' subline'')] ds0
     = Some (waiting_parser, ds0)
   \<and> tracked waiting_parser = [waiting_record]
   \<and> lines waiting_record = 1
   \<and> due_exact waiting_parser False 63800000000001000000 waiting_record
   \<and> flush waiting_parser False 63800000000001000000 ds0 = Some (None, waiting_parser, ds0)"
  by (simp add: patient_parser_def waiting_parser_def waiting_record_def ds0_def Handle_def
      handleNewLineMode_def key_regexp_def is_space_def selection_def append_entry_def
      newMultiLineEntry_def Merge_def join_def tracked_def due_exact_def flush_def
      Sub_def maxDuration_def minDuration_def Err_def Let_def)

text \<open>
  Claim C5 as amended: a pass of \<open>flush\<close> delivers exactly the tracked records that are
  \<open>due\<close>: with \<open>force\<close> those whose line count is positive, whatever their age, and without
  \<open>force\<close> those whose line count is positive and whose age, the duration
  \<open>Sub now enrollTime\<close> (the difference \<open>now - enrollTime\<close> cut to the range of a
  \<^verbatim>\<open>Duration\<close>), exceeds the idle duration. For an idle duration below the maximum duration
  that is \<open>now - enrollTime > maxWait\<close>, the rule of the specification. A delivered record is
  removed from the list (multitrack) or reset in place (single slot); a record without
  lines is never delivered. Line counts are never negative (the counter starts at 0 and is
  only incremented or set to 0 or 1).
\<close>

theorem flush_delivers_due_records:
  assumes "allocated c" and "list_all (\<lambda>t. 0 \<le> lines t) (tracked c)"
  shows "(\<exists>err c' ds'. flush c force now ds = Some (err, c', ds')
     \<and> received ds' = received ds @ map call_of (filter (due c force now) (tracked c))
     \<and> tracked c' =
         (if multitrack c then filter (\<lambda>t. lines t > 0 \<and> \<not> due c force now t) (tracked c)
          else map (\<lambda>t. if due c force now t then reset t else t) (tracked c)))
     \<and> (due c True now u \<longleftrightarrow> 0 < lines u)
     \<and> (due c False now u \<longleftrightarrow> 0 < lines u \<and> maxWait c < Sub now (enrollTime u))
     \<and> (lines u = 0 \<longrightarrow> \<not> due c force now u)
     \<and> (minDuration \<le> maxWait c \<and> maxWait c < maxDuration
          \<longrightarrow> due c force now u = due_exact c force now u)"
proof -
  have "due c True now u \<longleftrightarrow> 0 < lines u"
    and "due c False now u \<longleftrightarrow> 0 < lines u \<and> maxWait c < Sub now (enrollTime u)"
    and "lines u = 0 \<longrightarrow> \<not> due c force now u"
    by (simp_all add: due_def)
  moreover have "minDuration \<le> maxWait c \<and> maxWait c < maxDuration
          \<longrightarrow> due c force now u = due_exact c force now u"
    by (auto simp: due_def due_exact_def Sub_exact)
  ultimately show ?thesis using flush_due_records [OF assms, of force now ds] by blast
qed

theorem flush_delivers_due_records_witness:
  "allocated busy_parser \<and> list_all (\<lambda>t. 0 \<le> lines t) (tracked busy_parser)
   \<and> minDuration \<le> maxWait busy_parser \<and> maxWait busy_parser < maxDuration
   \<and> (\<exists>err c' ds'. flush busy_parser False 12 ds0 = Some (err, c', ds')
         \<and> received ds' = [(Map.empty, 100, ''G:1 event one'')]
         \<and> map key (tracked c') = [''G:2''])
   \<and> (\<exists>err c' ds'. flush busy_parser True 12 ds0 = Some (err, c', ds')
         \<and> map (snd \<circ> snd) (received ds') = [''G:1 event one'', ''G:2 event'']
         \<and> tracked c' = [])"
proof -
  have tr: "tracked busy_parser =
      [\<lparr>enrollTime = 0, labels = Map.empty, timestamp = 100, key = ''G:1'',
        entry = ''G:1 event one'', lines = 2\<rparr>,
       \<lparr>enrollTime = 8, labels = Map.empty, timestamp = 101, key = ''G:2'',
        entry = ''G:2 event'', lines = 1\<rparr>]"
    and mt: "multitrack busy_parser" and mw: "maxWait busy_parser = 10"
    by (simp_all add: tracked_def busy_parser_def unordered_parser_def)
  have a: "allocated busy_parser" using mt by (simp add: allocated_def)
  have n: "list_all (\<lambda>t. 0 \<le> lines t) (tracked busy_parser)" by (simp add: tr)
  show ?thesis
    using a n flush_delivers_due_records [OF a n, of False 12 ds0 "newMultiLineEntry []"]
      flush_delivers_due_records [OF a n, of True 12 ds0 "newMultiLineEntry []"]
    by (auto simp: tr mt mw due_def call_of_def ds0_def Sub_def maxDuration_def
        minDuration_def)
qed



subsection \<open>The pattern extractor\<close>

text \<open>
  On the offsets the regexp package returns, \<^verbatim>\<open>disjoint\<close> takes no slice out of range: the
  model, whose slices are total, is the Go function.
\<close>

lemma groups_loop_cursor: "snd (snd (groups_loop s m st)) = cursor m (snd (snd st))"
  by (induction s m st rule: groups_loop.induct) auto

lemma groups_in_range_ok:
  "pairs_ok s m \<Longrightarrow> 0 \<le> last' \<Longrightarrow> last' \<le> int (length s) \<Longrightarrow>
   groups_in_range s m last' \<and> 0 \<le> cursor m last' \<and> cursor m last' \<le> int (length s)"
  by (induction s m last' rule: groups_in_range.induct) (auto simp: in_range_def)

lemma pairs_ok_drop2: "pairs_ok s m \<Longrightarrow> pairs_ok s (drop 2 m)"
  by (induction s m rule: pairs_ok.induct) auto

lemma matches_in_range_ok:
  "list_all (pairs_ok s) ms \<Longrightarrow> 0 \<le> last' \<Longrightarrow> last' \<le> int (length s) \<Longrightarrow>
   matches_in_range s ms last'"
proof (induction ms arbitrary: last')
  case Nil
  then show ?case by (simp add: in_range_def)
next
  case (Cons m ms)
  then have "pairs_ok s (drop 2 m)" by (simp add: pairs_ok_drop2)
  from groups_in_range_ok [OF this Cons.prems(2,3)] Cons show ?case by simp
qed

lemma disjoint_in_range:
  "list_all (pairs_ok s) (FindAllSubmatchIndex expression s) \<Longrightarrow>
   matches_in_range s (FindAllSubmatchIndex expression s) 0"
  by (simp add: matches_in_range_ok)

lemma pick_append:
  "length bs = length xs \<Longrightarrow> pick (bs @ cs) (xs @ ys) = pick bs xs @ pick cs ys"
  by (simp add: pick_def)

lemma pick_all: "length xs = n \<Longrightarrow> pick (replicate n True) xs = xs"
  by (induction xs arbitrary: n) (auto simp: pick_def)

lemma pick_none: "length xs = n \<Longrightarrow> pick (replicate n False) xs = []"
  by (induction xs arbitrary: n) (auto simp: pick_def)

lemma take_slice:
  "0 \<le> a \<Longrightarrow> a \<le> b \<Longrightarrow> take (nat b) s = take (nat a) s @ slice s a b"
proof -
  assume "0 \<le> a" "a \<le> b"
  then have "nat b = nat a + nat (b - a)" by simp
  then show ?thesis by (simp add: slice_def take_add)
qed

lemma split_upto_step:
  assumes "split_upto s (sel, inv', last')" "last' \<le> b" "b < e"
  shows "split_upto s (sel @ [slice s b e], inv' @ [slice s last' b], e)"
proof -
  from assms(1) obtain bs where l0: "0 \<le> last'"
    and len: "length bs = length (take (nat last') s)"
    and s: "concat sel = pick bs (take (nat last') s)"
    and i: "concat inv' = pick (map Not bs) (take (nat last') s)"
    by (auto simp: split_upto_def)
  let ?p = "take (nat last') s" and ?u = "slice s last' b" and ?v = "slice s b e"
  let ?m = "bs @ replicate (length ?u) False @ replicate (length ?v) True"
  have t: "take (nat e) s = ?p @ ?u @ ?v"
    using take_slice [of last' b s] take_slice [of b e s] l0 assms(2,3) by simp
  have "length ?m = length (take (nat e) s)" unfolding t using len by simp
  moreover have "concat (sel @ [?v]) = pick ?m (take (nat e) s)"
    unfolding t using len s by (simp add: pick_append pick_all pick_none)
  moreover have "concat (inv' @ [?u]) = pick (map Not ?m) (take (nat e) s)"
    unfolding t using len i by (simp add: pick_append pick_all pick_none)
  moreover have "0 \<le> e" using l0 assms(2,3) by simp
  ultimately show ?thesis unfolding split_upto_def by blast
qed

lemma groups_loop_split: "split_upto s st \<Longrightarrow> split_upto s (groups_loop s m st)"
proof (induction s m st rule: groups_loop.induct)
  case (1 s beg "end" rest sel inv' last')
  then show ?case by (auto simp: split_upto_step)
qed simp_all

lemma matches_loop_split: "split_upto s st \<Longrightarrow> split_upto s (matches_loop s ms st)"
  by (induction ms arbitrary: st) (simp_all add: groups_loop_split)

text \<open>
  Claim C4: the pair \<open>(selected, unselected)\<close> that \<^verbatim>\<open>disjoint\<close> returns partitions the line.
  There is a mask over the positions of the line such that \<open>selected\<close> is the line at the
  marked positions and \<open>unselected\<close> the line at the other positions, both in the order of
  the line: every position goes to exactly one of the two, and putting each character back
  at its position gives the line. This holds for every expression, whatever its groups.
\<close>

theorem disjoint_partitions_line:
  "\<exists>bs. length bs = length s
      \<and> fst (disjoint expression s) = pick bs s
      \<and> snd (disjoint expression s) = pick (map Not bs) s"
proof -
  obtain sel inv' last' where
    m: "matches_loop s (FindAllSubmatchIndex expression s) ([], [], 0) = (sel, inv', last')"
    by (metis prod_cases3)
  have "split_upto s ([], [], 0)" by (simp add: split_upto_def pick_def)
  then have "split_upto s (sel, inv', last')"
    using matches_loop_split [of s "([], [], 0)"] m by metis
  then obtain bs where l0: "0 \<le> last'"
    and len: "length bs = length (take (nat last') s)"
    and s: "concat sel = pick bs (take (nat last') s)"
    and i: "concat inv' = pick (map Not bs) (take (nat last') s)"
    by (auto simp: split_upto_def)
  show ?thesis
  proof (cases "last' < int (length s)")
    case True
    let ?r = "drop (nat last') s"
    let ?m = "bs @ replicate (length ?r) False"
    have "s = take (nat last') s @ ?r" by simp
    then have "pick ?m s = pick bs (take (nat last') s) @ pick (replicate (length ?r) False) ?r"
      and "pick (map Not ?m) s = pick (map Not bs) (take (nat last') s) @ pick (replicate (length ?r) True) ?r"
      using len pick_append [of bs "take (nat last') s" "replicate (length ?r) False" ?r]
        pick_append [of "map Not bs" "take (nat last') s" "replicate (length ?r) True" ?r]
      by simp_all
    then have "fst (disjoint expression s) = pick ?m s"
      and "snd (disjoint expression s) = pick (map Not ?m) s"
      using m True s i by (simp_all add: disjoint_def pick_all pick_none)
    moreover have "length ?m = length s" using len True l0 by simp
    ultimately show ?thesis by blast
  next
    case False
    then have "take (nat last') s = s" by simp
    then show ?thesis using m False s i len by (auto simp: disjoint_def)
  qed
qed

subsection \<open>The group mode and the timestamp of a record\<close>

text \<open>
  Claim C9: in group mode, the reset after a delivery (by \<open>flush\<close>) clears the labels, the
  text and the line count of the slot and keeps its key; a following line with the key of
  the delivered record is then appended to the empty slot, with no call of \<open>init\<close>: the new
  record has one line, no leading separator, and the \<open>enrollTime\<close> and \<open>timestamp\<close> of the
  record delivered before.
\<close>

theorem group_reset_keeps_key:
  assumes "modeHandler c = Group" and "\<not> multitrack c" and "multiline c = Some ml"
    and "due c force now ml"
    and "fst (disjoint (expressionRegex c) e) = key ml"
  shows "\<exists>err c1 ds1 c2 ml2.
      flush c force now ds = Some (err, c1, ds1)
    \<and> received ds1 = received ds @ [call_of ml]
    \<and> multiline c1 = Some (ml\<lparr>labels := Map.empty, entry := [], lines := 0\<rparr>)
    \<and> Handle c1 lbls t e now2 ds1 = Some (None, c2, ds1)
    \<and> multiline c2 = Some ml2
    \<and> key ml2 = key ml \<and> lines ml2 = 1
    \<and> entry ml2 = (if nextLineRegex c \<noteq> None then selection (nextLineRegex c) e
                     else snd (disjoint (expressionRegex c) e))
    \<and> enrollTime ml2 = enrollTime ml \<and> timestamp ml2 = timestamp ml"
proof -
  obtain r ds1 where h: "next_Handle c (labels ml) (timestamp ml) (entry ml) ds = (r, ds1)"
    by (meson surj_pair)
  then have rec: "received ds1 = received ds @ [call_of ml]"
    by (auto simp: next_Handle_def call_of_def split: prod.splits)
  let ?c1 = "c\<lparr>multiline := Some (reset ml)\<rparr>"
  have f: "flush c force now ds = Some (Err (Add [] r), ?c1, ds1)"
    using assms(2-4) h by (simp add: flush_def due_def)
  obtain k inv' where d: "disjoint (expressionRegex c) e = (k, inv')" by (meson surj_pair)
  with assms(5) have k: "k = key ml" by simp
  let ?line = "if nextLineRegex c \<noteq> None then selection (nextLineRegex c) e else inv'"
  let ?l = "case lbls of None \<Rightarrow> Map.empty | Some l \<Rightarrow> l"
  let ?ml2 = "append_entry (reset ml) ?l ?line (separator c)"
  have hd: "Handle ?c1 lbls t e now2 ds1 = Some (None, c\<lparr>multiline := Some ?ml2\<rparr>, ds1)"
    using assms(1) d k by (simp add: Handle_def handleGroupMode_def reset_def Let_def)
  have "key ?ml2 = key ml" "lines ?ml2 = 1" "entry ?ml2 = ?line"
    "enrollTime ?ml2 = enrollTime ml" "timestamp ?ml2 = timestamp ml"
    by (simp_all add: append_entry_def reset_def join_def)
  with f rec hd d show ?thesis
    by (intro exI [of _ "Err (Add [] r)"] exI [of _ ?c1] exI [of _ ds1]
          exI [of _ "c\<lparr>multiline := Some ?ml2\<rparr>"] exI [of _ ?ml2])
       (simp add: reset_def)
qed

theorem group_reset_keeps_key_witness:
  "modeHandler pending_parser = Group \<and> \<not> multitrack pending_parser
   \<and> multiline pending_parser = Some pending_record
   \<and> due pending_parser False 12 pending_record
   \<and> fst (disjoint (expressionRegex pending_parser) ''G:1 one'') = key pending_record
   \<and> (\<exists>err c1 ds1 c2 ml2.
        flush pending_parser False 12 ds0 = Some (err, c1, ds1)
      \<and> Handle c1 None 200 ''G:1 one'' 13 ds1 = Some (None, c2, ds1)
      \<and> multiline c2 = Some ml2
      \<and> key ml2 = ''G:1'' \<and> lines ml2 = 1 \<and> entry ml2 = '' one''
      \<and> enrollTime ml2 = 0 \<and> timestamp ml2 = 100)"
proof -
  have a: "modeHandler pending_parser = Group" "\<not> multitrack pending_parser"
    "multiline pending_parser = Some pending_record" "due pending_parser False 12 pending_record"
    "nextLineRegex pending_parser = None"
    by (simp_all add: pending_parser_def pending_record_def group_parser_def due_def Sub_def
        maxDuration_def minDuration_def)
  have r: "key pending_record = ''G:1''" "enrollTime pending_record = 0"
    "timestamp pending_record = 100"
    by (simp_all add: pending_record_def)
  have d: "disjoint (expressionRegex pending_parser) ''G:1 one'' = (''G:1'', '' one'')"
    by (simp add: pending_parser_def group_parser_def disjoint_def key_regexp_def
        is_space_def slice_def)
  then have k: "fst (disjoint (expressionRegex pending_parser) ''G:1 one'') = key pending_record"
    by (simp add: r)
  show ?thesis
    using group_reset_keeps_key [OF a(1-4) k,
        where ds = ds0 and lbls = None and t = 200 and ?now2.0 = 13] a d r
    by auto
qed

text \<open>
  Claim C2 asks that every delivered record carries the timestamp of the first line that
  entered it, in every mode. \<open>append_entry\<close> leaves \<open>timestamp\<close> and \<open>enrollTime\<close> alone
  (lemma \<open>append_entry_frozen\<close>), but \<open>handleGroupMode\<close> appends to the slot whenever the key
  is the slot's, also when the slot is empty (\<open>handleUnorderedGroupMode\<close> and
  \<open>handleContinueMode\<close> test \<open>lines > 0\<close> first). In the execution below a first record is
  delivered by \<open>Flush\<close>; the line \<open>G:1 one\<close>, of timestamp 200, then starts a new record,
  which the second \<open>Flush\<close> delivers with the timestamp 100 of the record before.
\<close>

theorem group_record_reports_stale_timestamp:
  "map_option (\<lambda>(c, ds). received ds)
     (run group_parser
        [(1, Line None 100 ''G:1 event''), (2, ForcedFlush),
         (3, Line None 200 ''G:1 one''), (4, ForcedFlush)] ds0)
   = Some [(Map.empty, 100, ''G:1 event''), (Map.empty, 100, '' one'')]"
  by (simp add: group_parser_def ds0_def Handle_def handleGroupMode_def disjoint_def
      key_regexp_def is_space_def slice_def selection_def init_def append_entry_def reset_def
      newMultiLineEntry_def Flush_def flush_def next_Handle_def failing_handler_def
      Clone_def Merge_def join_def Add_def Err_def Let_def)

subsection \<open>Construction\<close>

lemma mode_switch_None:
  "mode_switch m = None \<longleftrightarrow> m \<notin> {''newline'', ''group'', ''unordered_group'', ''continue''}"
  by (simp add: mode_switch_def)

lemma mode_switch_Some:
  "mode_switch m = Some (h, multi, req) \<Longrightarrow> req = (m \<in> {''group'', ''unordered_group''})"
  by (auto simp: mode_switch_def split: if_splits)

lemma startFlusher_None: "startFlusher c = None \<longleftrightarrow> go_div2 (maxWait c) \<le> 0"
  by (simp add: startFlusher_def NewTicker_def split: option.splits)

lemma go_div2_le0: "0 < w \<Longrightarrow> go_div2 w \<le> 0 \<longleftrightarrow> w = 1"
  by (auto simp: go_div2_def)

lemma opt_compile_isl:
  "isl (if length s > 0 then map_sum id Some (C s) else Inr None) \<longleftrightarrow> s \<noteq> [] \<and> isl (C s)"
  by (cases "C s") auto

lemma opt_compile_Inr:
  "\<not> (s \<noteq> [] \<and> isl (C s)) \<Longrightarrow>
   (if length s > 0 then map_sum id Some (C s) else Inr None)
     = Inr (if s = [] then None else Some (projr (C s)))"
  by (cases "C s") auto

lemma wait_stage_Inr:
  "effective_wait P cfg = Some w \<Longrightarrow>
   (if IdleDuration cfg \<noteq> [] then P (IdleDuration cfg) else Inr (5 * 1000000000)) = Inr w"
  by (auto simp: effective_wait_def split: if_splits sum.splits)

lemma wait_stage_Inl:
  "effective_wait P cfg = None \<Longrightarrow>
   \<exists>err. (if IdleDuration cfg \<noteq> [] then P (IdleDuration cfg) else Inr (5 * 1000000000)) = Inl err"
  by (auto simp: effective_wait_def split: if_splits sum.splits)

lemma NewMultiLineParser_accepted:
  assumes "config = Some cfg" and "Expression cfg \<noteq> []"
    and "Compile (Expression cfg) = Inr expr"
    and "\<not> (FirstLineExpression cfg \<noteq> [] \<and> isl (Compile (FirstLineExpression cfg)))"
    and "\<not> (NextLineExpression cfg \<noteq> [] \<and> isl (Compile (NextLineExpression cfg)))"
    and "effective_wait ParseDuration cfg = Some w"
    and "mode_switch (Mode cfg) = Some (h, multi, req)"
  shows "NewMultiLineParser Compile ParseDuration lg config nxt =
     (let ml = \<lparr>modeHandler = h, expressionRegex = expr,
                firstLineRegex = (if FirstLineExpression cfg = [] then None
                                  else Some (projr (Compile (FirstLineExpression cfg)))),
                nextLineRegex = (if NextLineExpression cfg = [] then None
                                 else Some (projr (Compile (NextLineExpression cfg)))),
                maxWait = w, separator = Separator cfg,
                logger = map_option (\<lambda>l. With l [''component'', ''multiline'']) lg,
                multitrack = multi, multilines = [],
                multiline = (if multi then None else Some (newMultiLineEntry [])),
                flusher = None,
                nextHandler = (case nxt of None \<Rightarrow> nop_handler | Some n \<Rightarrow> n)\<rparr>
      in if nxt = None \<and> lg = None then Panic
         else if w > 0
         then (if w = 1 then Panic
               else Created (ml\<lparr>flusher := Some \<lparr>interval = w div 2, stopped = False\<rparr>\<rparr>))
         else if req then Failed (Error ErrMultiLineModeRequireMaxWait)
         else if lg = None then Panic
         else Created ml)"
proof -
  have g: "0 < w \<Longrightarrow> w \<noteq> 1 \<Longrightarrow> \<not> go_div2 w \<le> 0" "0 < w \<Longrightarrow> go_div2 w = w div 2"
    by (auto simp: go_div2_def)
  show ?thesis
    apply (simp only: NewMultiLineParser_def assms(1) option.case
        opt_compile_Inr [of "FirstLineExpression cfg" Compile, OF assms(4)]
        opt_compile_Inr [of "NextLineExpression cfg" Compile, OF assms(5)]
        wait_stage_Inr [OF assms(6)] assms(3) assms(7) sum.case)
    using assms(2) g
    by (cases lg; cases nxt) (simp_all add: startFlusher_def NewTicker_def Let_def Log_def)
qed

lemma mode_switch_multi:
  "mode_switch m = Some (h, multi, req) \<Longrightarrow> multi = (h = UnorderedGroup)"
  by (auto simp: mode_switch_def split: if_splits)

lemma NewMultiLineParser_outcome:
  "(case NewMultiLineParser Compile ParseDuration lg config nxt of
      Failed err \<Rightarrow> rejected Compile ParseDuration config
    | Panic \<Rightarrow> lg = None
        \<or> (\<not> rejected Compile ParseDuration config
            \<and> (\<exists>cfg. config = Some cfg \<and> effective_wait ParseDuration cfg = Some 1))
    | Created ml \<Rightarrow> \<not> rejected Compile ParseDuration config
        \<and> (logger ml = None) = (lg = None)
        \<and> (\<exists>cfg. config = Some cfg \<and> effective_wait ParseDuration cfg = Some (maxWait ml))
        \<and> maxWait ml \<noteq> 1
        \<and> flusher ml = (if maxWait ml > 0
             then Some \<lparr>interval = maxWait ml div 2, stopped = False\<rparr> else None)
        \<and> multitrack ml = (modeHandler ml = UnorderedGroup)
        \<and> multilines ml = []
        \<and> multiline ml = (if multitrack ml then None else Some (newMultiLineEntry [])))"
proof (cases config)
  case None
  then show ?thesis by (simp add: NewMultiLineParser_def rejected_def)
next
  case (Some cfg)
  show ?thesis
  proof (cases "Expression cfg = [] \<or> isl (Compile (Expression cfg))")
    case True
    then show ?thesis using Some
      by (auto simp: NewMultiLineParser_def rejected_def isl_def)
  next
    case e: False
    then obtain expr where expr: "Compile (Expression cfg) = Inr expr" and ne: "Expression cfg \<noteq> []"
      by (cases "Compile (Expression cfg)") auto
    show ?thesis
    proof (cases "FirstLineExpression cfg \<noteq> [] \<and> isl (Compile (FirstLineExpression cfg))")
      case True
      then show ?thesis using Some expr ne
        by (auto simp: NewMultiLineParser_def rejected_def isl_def)
    next
      case f: False
      show ?thesis
      proof (cases "NextLineExpression cfg \<noteq> [] \<and> isl (Compile (NextLineExpression cfg))")
        case True
        then show ?thesis using Some expr ne
          opt_compile_Inr [of "FirstLineExpression cfg" Compile, OF f]
          by (auto simp: NewMultiLineParser_def rejected_def isl_def)
      next
        case n: False
        show ?thesis
        proof (cases "effective_wait ParseDuration cfg")
          case None
          from wait_stage_Inl [OF None] obtain err where
            "(if IdleDuration cfg \<noteq> [] then ParseDuration (IdleDuration cfg)
              else Inr (5 * 1000000000)) = Inl err" by blast
          then show ?thesis using Some expr ne None
            opt_compile_Inr [of "FirstLineExpression cfg" Compile, OF f]
            opt_compile_Inr [of "NextLineExpression cfg" Compile, OF n]
            by (simp add: NewMultiLineParser_def rejected_def)
        next
          case w: (Some w)
          show ?thesis
          proof (cases "mode_switch (Mode cfg)")
            case None
            then show ?thesis using Some expr ne
              opt_compile_Inr [of "FirstLineExpression cfg" Compile, OF f]
              opt_compile_Inr [of "NextLineExpression cfg" Compile, OF n]
              wait_stage_Inr [OF w] mode_switch_None [of "Mode cfg"]
              by (simp add: NewMultiLineParser_def rejected_def)
          next
            case m: (Some hmr)
            obtain h multi req where hmr: "hmr = (h, multi, req)" by (cases hmr) auto
            have req: "req = (Mode cfg \<in> {''group'', ''unordered_group''})"
              using m hmr mode_switch_Some by blast
            have multi: "multi = (h = UnorderedGroup)"
              using m hmr mode_switch_multi by blast
            have known: "Mode cfg \<in> {''newline'', ''group'', ''unordered_group'', ''continue''}"
              using m mode_switch_None [of "Mode cfg"] by simp
            have rej: "rejected Compile ParseDuration config \<longleftrightarrow> req \<and> w \<le> 0"
              using Some e f n w known req by (auto simp: rejected_def)
            show ?thesis
              unfolding rej
              NewMultiLineParser_accepted [OF Some ne expr f n w m [unfolded hmr]]
              using Some w multi by (simp add: Let_def)
          qed
        qed
      qed
    qed
  qed
qed

text \<open>With a logger, the constructor fails exactly on the rejected configurations.\<close>

lemma NewMultiLineParser_Failed_iff:
  assumes "lg \<noteq> None"
  shows "(\<exists>err. NewMultiLineParser Compile ParseDuration lg config nxt = Failed err)
     \<longleftrightarrow> rejected Compile ParseDuration config"
  using NewMultiLineParser_outcome
      [where Compile = Compile and ParseDuration = ParseDuration and lg = lg
         and config = config and nxt = nxt] assms
  by (cases "NewMultiLineParser Compile ParseDuration lg config nxt") auto

lemma NewMultiLineParser_Panic_iff:
  assumes "lg \<noteq> None"
  shows "NewMultiLineParser Compile ParseDuration lg config nxt = Panic
     \<longleftrightarrow> \<not> rejected Compile ParseDuration config
         \<and> (\<exists>cfg. config = Some cfg \<and> effective_wait ParseDuration cfg = Some 1)"
  using NewMultiLineParser_outcome
      [where Compile = Compile and ParseDuration = ParseDuration and lg = lg
         and config = config and nxt = nxt] assms
  by (cases "NewMultiLineParser Compile ParseDuration lg config nxt") auto

lemma NewMultiLineParser_allocated:
  "NewMultiLineParser Compile ParseDuration lg config nxt = Created ml \<Longrightarrow>
   allocated ml \<and> list_all (\<lambda>t. 0 \<le> lines t) (tracked ml)"
  using NewMultiLineParser_outcome
      [where Compile = Compile and ParseDuration = ParseDuration and lg = lg
         and config = config and nxt = nxt]
  by (auto simp: allocated_def tracked_def newMultiLineEntry_def)

text \<open>
  Without a logger and without a next handler, a configuration that passes the checks up
  to the mode panics in the warning that the next handler is not defined.
\<close>

lemma NewMultiLineParser_nil_logger:
  "NewMultiLineParser (\<lambda>s. Inr key_regexp) ParseDuration_ns None
     (Some \<lparr>Mode = ''continue'', Expression = ''x'', FirstLineExpression = [],
            NextLineExpression = [], IdleDuration = ''10ns'', Separator = []\<rparr>)
     None = (Panic :: nat construction)"
  by (simp add: NewMultiLineParser_def ParseDuration_ns_def mode_switch_def Log_def)

text \<open>
  Claim C6 asks that construction either returns an error, for the configurations the
  specification lists, or creates an instance. With a logger the errors are as listed
  (lemma \<open>NewMultiLineParser_Failed_iff\<close>), but a configuration that is not rejected and
  whose idle duration is one nanosecond gives neither: \<open>startFlusher\<close> asks for a ticker of
  interval \<open>1 / 2 = 0\<close>, and \<^verbatim>\<open>time.NewTicker\<close> panics (lemma
  \<open>NewMultiLineParser_Panic_iff\<close>), with a logger and without one.
\<close>

theorem NewMultiLineParser_panics_on_1ns:
  "NewMultiLineParser (\<lambda>s. Inr key_regexp) ParseDuration_ns (Some (Logger []))
     (Some \<lparr>Mode = ''continue'', Expression = ''x'', FirstLineExpression = [],
            NextLineExpression = [], IdleDuration = ''1ns'', Separator = []\<rparr>)
     (Some failing_handler) = Panic
   \<and> NewMultiLineParser (\<lambda>s. Inr key_regexp) ParseDuration_ns None
     (Some \<lparr>Mode = ''continue'', Expression = ''x'', FirstLineExpression = [],
            NextLineExpression = [], IdleDuration = ''1ns'', Separator = []\<rparr>)
     (Some failing_handler) = Panic"
  by (simp add: NewMultiLineParser_def ParseDuration_ns_def mode_switch_def startFlusher_def
      NewTicker_def go_div2_def)

subsection \<open>The sweep and the idle duration\<close>

text \<open>
  A sweep that does not panic delivers the non-empty records whose age exceeds the idle
  duration and no other: every record it delivers is older, by its \<open>enrollTime\<close>, than the
  idle duration.
\<close>

lemma sweep_delivers_older:
  assumes "allocated c" and "list_all (\<lambda>t. 0 \<le> lines t) (tracked c)"
    and "sweep c now ds = Some (c', ds')"
  shows "received ds' = received ds
           @ map call_of (filter (\<lambda>t. 0 < lines t \<and> maxWait c < Sub now (enrollTime t)) (tracked c))"
proof -
  from flush_due_records [OF assms(1,2), of False now ds] obtain err c1 ds1 where
    f: "flush c False now ds = Some (err, c1, ds1)"
    and r: "received ds1 = received ds @ map call_of (filter (due c False now) (tracked c))"
    by blast
  have d: "due c False now = (\<lambda>t. 0 < lines t \<and> maxWait c < Sub now (enrollTime t))"
    by (simp add: due_def fun_eq_iff)
  from assms(3) f have "ds' = ds1"
    by (auto simp: sweep_def split: if_splits option.splits)
  with r show ?thesis by (simp add: d)
qed

text \<open>
  Claim C3 says that ticking every half idle duration guarantees that no record is held
  longer than the idle duration beyond its enrollment, as the comments of the code do
  (``set the ticker interval to half the maxWait period to guarantee maxWait period for the
  entries''). The code delivers a record only at a tick with \<open>now.Sub(enrollTime) > maxWait\<close>.
  With an idle duration of 10 the ticker created at instant 1000 fires every 5; the record
  enrolled at instant 1000 is still held after the tick at instant 1010 and is delivered by
  the tick at instant 1015, having been held for 15.
\<close>

theorem sweep_keeps_record_past_idle_duration:
  "maxWait group_parser = 10
   \<and> flusher group_parser = Some \<lparr>interval = go_div2 10, stopped = False\<rparr>
   \<and> map_option (\<lambda>(c, ds). (map enrollTime (tracked c), map lines (tracked c), received ds))
         (run group_parser
            [(1000, Line None 100 ''G:1 event''), (1005, Tick), (1010, Tick)] ds0)
       = Some ([1000], [1], [])
   \<and> map_option (\<lambda>(c, ds). received ds)
         (run group_parser
            [(1000, Line None 100 ''G:1 event''), (1005, Tick), (1010, Tick), (1015, Tick)] ds0)
       = Some [(Map.empty, 100, ''G:1 event'')]"
  by (simp add: group_parser_def ds0_def Handle_def handleGroupMode_def disjoint_def
      key_regexp_def is_space_def slice_def selection_def init_def append_entry_def reset_def
      newMultiLineEntry_def sweep_def flush_def next_Handle_def failing_handler_def
      Clone_def Merge_def join_def Add_def Err_def Let_def tracked_def go_div2_def
      Sub_def maxDuration_def minDuration_def Log_def)

subsection \<open>Well-formed parsers\<close>

lemma find_key_less: "find_key k ts = Some i \<Longrightarrow> i < length ts"
  by (induction ts arbitrary: i) (auto split: if_splits)

lemma fetchLine_in_range:
  "fetchLine c k = (c1, i) \<Longrightarrow> i < length (multilines c1)"
  by (auto simp: fetchLine_def find_key_less split: option.splits)

lemma lines_nonneg_steps:
  "0 \<le> lines d \<Longrightarrow> 0 \<le> lines (append_entry d lbls e sep)"
  "0 \<le> lines (init d lbls t e now)"
  "0 \<le> lines ((init d lbls t e now)\<lparr>key := k\<rparr>)"
  "0 \<le> lines (reset d)"
  by (simp_all add: append_entry_def init_def reset_def)

lemma list_all_update:
  "list_all P xs \<Longrightarrow> P y \<Longrightarrow> list_all P (xs[i := y])"
  by (induction xs arbitrary: i) (auto split: nat.splits)

lemma handleUnorderedGroupMode_well_formed:
  assumes "well_formed c" and "modeHandler c = UnorderedGroup"
  shows "\<exists>c'. handleUnorderedGroupMode c lbls t e now ds = Some (None, c', ds) \<and> well_formed c'"
proof -
  obtain k inv' where d: "disjoint (expressionRegex c) e = (k, inv')" by (meson surj_pair)
  obtain c1 i where f: "fetchLine c k = (c1, i)" by (meson surj_pair)
  have mt: "multitrack c" using assms by (simp add: well_formed_def)
  have nn: "list_all (\<lambda>t. 0 \<le> lines t) (multilines c)"
    using assms(1) mt by (simp add: well_formed_def tracked_def)
  have c1: "multitrack c1" "modeHandler c1 = UnorderedGroup"
    "list_all (\<lambda>t. 0 \<le> lines t) (multilines c1)"
    using f mt assms(2) nn
    by (auto simp: fetchLine_def newMultiLineEntry_def split: option.splits)
  have i: "i < length (multilines c1)" using f by (rule fetchLine_in_range)
  then have li: "0 \<le> lines (multilines c1 ! i)" using c1(3) by (simp add: list_all_length)
  let ?ml = "multilines c1 ! i"
  have wf: "\<And>x. 0 \<le> lines x \<Longrightarrow> well_formed (c1\<lparr>multilines := (multilines c1)[i := x]\<rparr>)"
    using c1 by (simp add: well_formed_def allocated_def tracked_def list_all_update)
  show ?thesis
  proof (cases "lines ?ml > 0")
    case True
    let ?line = "if nextLineRegex c \<noteq> None then selection (nextLineRegex c) e else inv'"
    have "handleUnorderedGroupMode c lbls t e now ds =
        Some (None, c1\<lparr>multilines := (multilines c1)[i := append_entry ?ml lbls ?line (separator c)]\<rparr>, ds)"
      using d f True by (simp add: handleUnorderedGroupMode_def Let_def)
    then show ?thesis using wf lines_nonneg_steps(1) [OF li] by simp
  next
    case False
    have "handleUnorderedGroupMode c lbls t e now ds =
        Some (None, c1\<lparr>multilines := (multilines c1)
            [i := (init ?ml lbls t (selection (firstLineRegex c) e) now)\<lparr>key := k\<rparr>]\<rparr>, ds)"
      using d f False by (simp add: handleUnorderedGroupMode_def Let_def)
    then show ?thesis using wf lines_nonneg_steps(3) by simp
  qed
qed

lemma single_handlers_well_formed:
  assumes "well_formed c" and "modeHandler c \<noteq> UnorderedGroup"
  shows "\<exists>err c' ds'. handleNewLineMode c lbls t e now ds = Some (err, c', ds') \<and> well_formed c'"
    and "\<exists>err c' ds'. handleGroupMode c lbls t e now ds = Some (err, c', ds') \<and> well_formed c'"
    and "\<exists>err c' ds'. handleContinueMode c lbls t e now ds = Some (err, c', ds') \<and> well_formed c'"
proof -
  have st: "\<not> multitrack c" using assms by (simp add: well_formed_def)
  then obtain ml where ml: "multiline c = Some ml" and l: "0 \<le> lines ml"
    using assms(1) by (auto simp: well_formed_def allocated_def tracked_def)
  have wf: "\<And>x. 0 \<le> lines x \<Longrightarrow> well_formed (c\<lparr>multiline := Some x\<rparr>)"
    using assms st by (simp add: well_formed_def allocated_def tracked_def)
  show "\<exists>err c' ds'. handleNewLineMode c lbls t e now ds = Some (err, c', ds') \<and> well_formed c'"
    using ml l by (auto simp: handleNewLineMode_def wf lines_nonneg_steps split: prod.splits)
  show "\<exists>err c' ds'. handleGroupMode c lbls t e now ds = Some (err, c', ds') \<and> well_formed c'"
    using ml l
    by (auto simp: handleGroupMode_def Let_def wf lines_nonneg_steps split: prod.splits)
  show "\<exists>err c' ds'. handleContinueMode c lbls t e now ds = Some (err, c', ds') \<and> well_formed c'"
    using ml l assms(1)
    by (auto simp: handleContinueMode_def Let_def wf lines_nonneg_steps split: prod.splits)
qed

lemma Handle_well_formed:
  assumes "well_formed c"
  shows "\<exists>err c' ds'. Handle c lbls t e now ds = Some (err, c', ds') \<and> well_formed c'"
proof (cases "modeHandler c")
  case UnorderedGroup
  then show ?thesis
    using handleUnorderedGroupMode_well_formed [OF assms UnorderedGroup]
    by (simp add: Handle_def Let_def) blast
next
  case NewLine
  then show ?thesis using single_handlers_well_formed(1) [OF assms]
    by (simp add: Handle_def Let_def)
next
  case Group
  then show ?thesis using single_handlers_well_formed(2) [OF assms]
    by (simp add: Handle_def Let_def)
next
  case Continue
  then show ?thesis using single_handlers_well_formed(3) [OF assms]
    by (simp add: Handle_def Let_def)
qed

lemma flush_modeHandler:
  "flush c force now ds = Some (err, c', ds') \<Longrightarrow>
   modeHandler c' = modeHandler c \<and> multitrack c' = multitrack c"
  by (auto simp: flush_def split: if_splits option.splits prod.splits)

lemma flush_well_formed:
  assumes "well_formed c"
  shows "\<exists>err c' ds'. flush c force now ds = Some (err, c', ds') \<and> well_formed c'"
proof -
  have a: "allocated c" and n: "list_all (\<lambda>t. 0 \<le> lines t) (tracked c)"
    using assms by (simp_all add: well_formed_def)
  from flush_due_records [OF a n, of force now ds] obtain err c' ds' where
    f: "flush c force now ds = Some (err, c', ds')"
    and tr: "tracked c' =
         (if multitrack c then filter (\<lambda>t. lines t > 0 \<and> \<not> due c force now t) (tracked c)
          else map (\<lambda>t. if due c force now t then reset t else t) (tracked c))"
    by blast
  have m: "modeHandler c' = modeHandler c" "multitrack c' = multitrack c"
    using flush_modeHandler [OF f] by simp_all
  have "list_all (\<lambda>t. 0 \<le> lines t) (tracked c')"
    using n unfolding tr by (auto simp: list_all_iff reset_def)
  moreover have "allocated c'"
    using f a by (auto simp: flush_def allocated_def split: if_splits option.splits prod.splits)
  ultimately show ?thesis using f m assms by (auto simp: well_formed_def)
qed

lemma flush_logger:
  "flush c force now ds = Some (err, c', ds') \<Longrightarrow> logger c' = logger c"
  by (auto simp: flush_def split: if_splits option.splits prod.splits)

lemma Handle_logger:
  "Handle c lbls t e now ds = Some (err, c', ds') \<Longrightarrow> logger c' = logger c"
proof (cases "modeHandler c")
  case NewLine
  then show "Handle c lbls t e now ds = Some (err, c', ds') \<Longrightarrow> logger c' = logger c"
    by (auto simp: Handle_def handleNewLineMode_def Let_def
        split: option.splits if_splits prod.splits)
next
  case Group
  then show "Handle c lbls t e now ds = Some (err, c', ds') \<Longrightarrow> logger c' = logger c"
    by (auto simp: Handle_def handleGroupMode_def Let_def
        split: option.splits if_splits prod.splits)
next
  case UnorderedGroup
  then show "Handle c lbls t e now ds = Some (err, c', ds') \<Longrightarrow> logger c' = logger c"
    by (auto simp: Handle_def handleUnorderedGroupMode_def fetchLine_def Let_def
        split: option.splits if_splits prod.splits)
next
  case Continue
  then show "Handle c lbls t e now ds = Some (err, c', ds') \<Longrightarrow> logger c' = logger c"
    by (auto simp: Handle_def handleContinueMode_def Let_def
        split: option.splits if_splits prod.splits)
qed

lemma run_well_formed:
  "well_formed c \<Longrightarrow> logger c \<noteq> None \<Longrightarrow>
   \<exists>c' ds'. run c ops ds = Some (c', ds') \<and> well_formed c' \<and> logger c' \<noteq> None"
proof (induction ops arbitrary: c ds)
  case Nil
  then show ?case by simp
next
  case (Cons x ops)
  obtain now op where x: "x = (now, op)" by (cases x) auto
  show ?case
  proof (cases op)
    case (Line lbls t e)
    from Handle_well_formed [OF Cons.prems(1), of lbls t e now ds] obtain err c1 ds1 where
      h: "Handle c lbls t e now ds = Some (err, c1, ds1)" and w: "well_formed c1" by blast
    have "logger c1 \<noteq> None" using Handle_logger [OF h] Cons.prems(2) by simp
    then show ?thesis using Cons.IH [OF w, of ds1] h x Line by simp
  next
    case Tick
    from flush_well_formed [OF Cons.prems(1), of False now ds] obtain err c1 ds1 where
      f: "flush c False now ds = Some (err, c1, ds1)" and w: "well_formed c1" by blast
    have l: "logger c1 \<noteq> None" using flush_logger [OF f] Cons.prems(2) by simp
    have "sweep c now ds = Some (c1, ds1)"
      using f Cons.prems(2) by (auto simp: sweep_def Log_def)
    then show ?thesis using Cons.IH [OF w l, of ds1] x Tick by simp
  next
    case ForcedFlush
    from flush_well_formed [OF Cons.prems(1), of True now ds] obtain err c1 ds1 where
      f: "flush c True now ds = Some (err, c1, ds1)" and w: "well_formed c1" by blast
    have l: "logger c1 \<noteq> None" using flush_logger [OF f] Cons.prems(2) by simp
    show ?thesis using Cons.IH [OF w l, of ds1] f x ForcedFlush by (simp add: Flush_def)
  qed
qed

text \<open>A sweep on a parser without a logger panics when a delivery fails.\<close>

lemma sweep_nil_logger:
  "sweep (pending_parser\<lparr>logger := None\<rparr>) 12 ds0 = None"
  by (simp add: sweep_def flush_def pending_parser_def pending_record_def group_parser_def
      ds0_def next_Handle_def failing_handler_def Add_def Err_def Log_def Sub_def
      maxDuration_def minDuration_def)

lemma NewMultiLineParser_well_formed:
  "NewMultiLineParser Compile ParseDuration lg config nxt = Created ml \<Longrightarrow> well_formed ml"
  using NewMultiLineParser_outcome
      [where Compile = Compile and ParseDuration = ParseDuration and lg = lg
         and config = config and nxt = nxt]
  by (auto simp: well_formed_def allocated_def tracked_def newMultiLineEntry_def)

end
